theory Spec2Isabelle
  imports
    Main
    "HOL-Library.Char_ord"
    "HOL-Library.List_Lexorder"
    "HOL-Library.Product_Lexorder"
    "HOL-Library.Sublist"
    "HOL-Library.Multiset"
    "HOL-Library.AList"
begin

section \<open>JavaScript values\<close>

text \<open>
  The values the code parses from the store, builds, returns and throws are those JSON
  can carry, and \<^verbatim>\<open>undefined\<close>, which is what a function that returns nothing returns.
  An object is its list of own properties in property order. Members inherited from a
  prototype (\<^verbatim>\<open>toString\<close>, \<^verbatim>\<open>constructor\<close>, ...) are not modelled, numbers are integers,
  and two keys of a \<^verbatim>\<open>Set\<close> are the same when they are equal as values.
\<close>

datatype json =
    JUndefined
  | JNull
  | JBool bool
  | JNum int
  | JStr string
  | JArr "json list"
  | JObj "(string \<times> json) list"

section \<open>Errors\<close>

text \<open>
  What the code throws. \<open>InvalidVersionFormat\<close>, \<open>TypeError\<close> and \<open>SyntaxError\<close> are
  the \<^verbatim>\<open>Error\<close> objects the code and the engine make; \<open>Thrown\<close> is an \<^verbatim>\<open>Error\<close> object
  made by a migration author's code, with its message and stack text; \<open>ThrownValue\<close> is
  any other value such code throws. Console output is not part of the model.
\<close>

datatype error =
    InvalidVersionFormat string
  | TypeError string
  | SyntaxError string
  | Thrown string string
  | ThrownValue json

section \<open>SemVer model (version.js)\<close>

text \<open>
  Strings are lists of 8-bit characters. The regular expression of \<^verbatim>\<open>parseVersion\<close>,
  \<^verbatim>\<open>/^(\d+)\.(\d+)\.(\d+)(?:-(.+))?$/\<close>, is matched by hand: \<^verbatim>\<open>\d\<close> is an ASCII digit, each
  group of digits is maximal because the character that must follow is not a digit, and
  \<^verbatim>\<open>.\<close> is any character but a line terminator.
\<close>

record parsed_version =
  major :: nat
  minor :: nat
  patch :: nat
  label :: "string option"
  raw :: string

definition is_digit :: "char \<Rightarrow> bool" where
  "is_digit c = (CHR ''0'' \<le> c \<and> c \<le> CHR ''9'')"

definition is_line_terminator :: "char \<Rightarrow> bool" where
  "is_line_terminator c = (c = CHR 0x0A \<or> c = CHR 0x0D)"

definition digit_value :: "char \<Rightarrow> nat" where
  "digit_value c = of_char c - 48"

text \<open>
  \<^verbatim>\<open>parseInt(digits, 10)\<close> on a non-empty string of digits returns a Number, an IEEE
  double: the decimal value of the digits when that is below \<open>2^53\<close>, and from there up
  the nearest double (53 significant bits, ties to the even one), which is
  \<^verbatim>\<open>Infinity\<close> from \<open>2^1024 - 2^970\<close> on. The model holds the value of the double as a
  natural number and lets \<open>2^1024\<close> stand for \<^verbatim>\<open>Infinity\<close>: it equals itself and lies above
  every finite double, which is all the comparisons of the code ask of it.
\<close>

definition decimal_value :: "string \<Rightarrow> nat" where
  "decimal_value ds = foldl (\<lambda>n c. 10 * n + digit_value c) 0 ds"

function bit_length :: "nat \<Rightarrow> nat" where
  "bit_length n = (if n = 0 then 0 else Suc (bit_length (n div 2)))"
  by pat_completeness auto
termination
  by (relation "measure id") auto

declare bit_length.simps [simp del]

definition round_to_double :: "nat \<Rightarrow> nat" where
  "round_to_double n =
     (if n < 2 ^ 53 then n
      else
        (let e = bit_length n - 53;
             q = n div 2 ^ e;
             r = n mod 2 ^ e;
             q' = (if 2 * r > 2 ^ e \<or> (2 * r = 2 ^ e \<and> odd q) then q + 1 else q)
         in min (q' * 2 ^ e) (2 ^ 1024)))"

definition parseInt :: "string \<Rightarrow> nat" where
  "parseInt ds = round_to_double (decimal_value ds)"

text \<open>One \<^verbatim>\<open>(\d+)\<close> group: the digits taken and the rest, or no match.\<close>

definition match_digits :: "string \<Rightarrow> (string \<times> string) option" where
  "match_digits s =
     (if takeWhile is_digit s = [] then None
      else Some (takeWhile is_digit s, dropWhile is_digit s))"

text \<open>A literal dot.\<close>

fun match_dot :: "string \<Rightarrow> string option" where
  "match_dot [] = None"
| "match_dot (c # cs) = (if c = CHR ''.'' then Some cs else None)"

text \<open>
  The tail \<^verbatim>\<open>(?:-(.+))?$\<close>: the outer \<open>None\<close> is no match, \<open>Some None\<close> a match with
  no label, \<open>Some (Some l)\<close> a match with label \<open>l\<close>.
\<close>

fun match_label :: "string \<Rightarrow> string option option" where
  "match_label [] = Some None"
| "match_label (c # cs) =
     (if c = CHR ''-'' \<and> cs \<noteq> [] \<and> \<not> list_ex is_line_terminator cs then Some (Some cs)
      else None)"

definition parseVersion :: "string \<Rightarrow> error + parsed_version" where
  "parseVersion versionStr =
     (case match_digits versionStr of
        None \<Rightarrow> Inl (InvalidVersionFormat versionStr)
      | Some (m1, r1) \<Rightarrow>
     (case match_dot r1 of
        None \<Rightarrow> Inl (InvalidVersionFormat versionStr)
      | Some r1' \<Rightarrow>
     (case match_digits r1' of
        None \<Rightarrow> Inl (InvalidVersionFormat versionStr)
      | Some (m2, r2) \<Rightarrow>
     (case match_dot r2 of
        None \<Rightarrow> Inl (InvalidVersionFormat versionStr)
      | Some r2' \<Rightarrow>
     (case match_digits r2' of
        None \<Rightarrow> Inl (InvalidVersionFormat versionStr)
      | Some (m3, r3) \<Rightarrow>
     (case match_label r3 of
        None \<Rightarrow> Inl (InvalidVersionFormat versionStr)
      | Some m4 \<Rightarrow>
          Inr \<lparr> major = parseInt m1, minor = parseInt m2, patch = parseInt m3,
                label = m4, raw = versionStr \<rparr>))))))"

text \<open>
  \<^verbatim>\<open>compareVersions\<close> parses both arguments (the first one first) and then compares
  field by field; string comparison in JavaScript is lexicographic by code unit, which
  is the order of \<open>string\<close> here.
\<close>

definition compare_parsed :: "parsed_version \<Rightarrow> parsed_version \<Rightarrow> int" where
  "compare_parsed a b =
     (if major a \<noteq> major b then (if major a > major b then 1 else -1)
      else if minor a \<noteq> minor b then (if minor a > minor b then 1 else -1)
      else if patch a \<noteq> patch b then (if patch a > patch b then 1 else -1)
      else
        (case (label a, label b) of
           (None, Some lb) \<Rightarrow> 1
         | (Some la, None) \<Rightarrow> -1
         | (None, None) \<Rightarrow> 0
         | (Some la, Some lb) \<Rightarrow> if la = lb then 0 else if la > lb then 1 else -1))"

definition compareVersions :: "string \<Rightarrow> string \<Rightarrow> error + int" where
  "compareVersions versionA versionB =
     (case parseVersion versionA of
        Inl e \<Rightarrow> Inl e
      | Inr a \<Rightarrow>
          (case parseVersion versionB of
             Inl e \<Rightarrow> Inl e
           | Inr b \<Rightarrow> Inr (compare_parsed a b)))"

section \<open>Version history and path resolution (version.js)\<close>

text \<open>
  \<^verbatim>\<open>APP_VERSION\<close> and \<^verbatim>\<open>VERSION_HISTORY\<close> are module constants that every release edits,
  so the functions below take them as arguments; the constants of this release follow.
\<close>

record version_record =
  version :: string
  requiresMigration :: bool
  migrateFrom :: "string list"
  storageKeys :: "string list"
  release_notes :: string
  changes :: "string list"
  breaking :: bool

definition APP_VERSION :: string where
  "APP_VERSION = ''1.0.0-alpha''"

definition VERSION_HISTORY :: "version_record list" where
  "VERSION_HISTORY =
     [\<lparr> version = ''1.0.0-alpha'',
        requiresMigration = False,
        migrateFrom = [],
        storageKeys =
          [''companies'', ''app_version'',
           ''reviews_1651'', ''reviews_1138'', ''reviews_1651639'', ''reviews_40772'',
           ''reviews_6036'',
           ''reviewsTableColumnOrder'', ''reviewsTableColumnVisibility'',
           ''reviewsTableColumnOrderCompare'', ''reviewsTableColumnVisibilityCompare'',
           ''sentimentChartsOrder'', ''sentimentChartsHidden'',
           ''sentimentChartsOrderCompare'', ''sentimentChartsHiddenCompare''],
        release_notes = ''Initial version with version tracking capability'',
        changes = [''Added version tracking system'', ''Local storage migration framework''],
        breaking = False \<rparr>]"

text \<open>
  \<^verbatim>\<open>[...VERSION_HISTORY].sort((a, b) => compareVersions(a.version, b.version))\<close>.
  The engine's sort is stable and passes on whatever the comparator throws; the order in
  which it compares is its own. The model is a stable insertion sort: like every
  comparison sort it never calls the comparator on fewer than two elements and calls it
  on each element of a longer array.
\<close>

fun insert_sorted :: "version_record \<Rightarrow> version_record list \<Rightarrow> error + version_record list" where
  "insert_sorted x [] = Inr [x]"
| "insert_sorted x (y # ys) =
     (case compareVersions (version x) (version y) of
        Inl e \<Rightarrow> Inl e
      | Inr c \<Rightarrow>
          if c \<le> 0 then Inr (x # y # ys)
          else (case insert_sorted x ys of Inl e \<Rightarrow> Inl e | Inr zs \<Rightarrow> Inr (y # zs)))"

fun sort_versions :: "version_record list \<Rightarrow> error + version_record list" where
  "sort_versions [] = Inr []"
| "sort_versions (x # xs) =
     (case sort_versions xs of Inl e \<Rightarrow> Inl e | Inr ys \<Rightarrow> insert_sorted x ys)"

text \<open>\<^verbatim>\<open>Array.prototype.findIndex\<close>: \<open>None\<close> stands for \<^verbatim>\<open>-1\<close>.\<close>

fun findIndex :: "('a \<Rightarrow> bool) \<Rightarrow> 'a list \<Rightarrow> nat option" where
  "findIndex P [] = None"
| "findIndex P (x # xs) = (if P x then Some 0 else map_option Suc (findIndex P xs))"

text \<open>\<^verbatim>\<open>Array.prototype.slice(b, e)\<close> for indices that are not negative.\<close>

definition slice :: "nat \<Rightarrow> nat \<Rightarrow> 'a list \<Rightarrow> 'a list" where
  "slice b e xs = take (e - b) (drop b xs)"

definition getMigrationPath ::
  "version_record list \<Rightarrow> string \<Rightarrow> string \<Rightarrow> error + version_record list" where
  "getMigrationPath history fromVersion toVersion =
     (if fromVersion = toVersion then Inr []
      else
        (case sort_versions history of
           Inl e \<Rightarrow> Inl e
         | Inr sortedVersions \<Rightarrow>
             (case findIndex (\<lambda>v. version v = fromVersion) sortedVersions of
                None \<Rightarrow> Inr []
              | Some fromIndex \<Rightarrow>
                  (case findIndex (\<lambda>v. version v = toVersion) sortedVersions of
                     None \<Rightarrow> Inr []
                   | Some toIndex \<Rightarrow>
                       Inr (filter requiresMigration
                              (slice (fromIndex + 1) (toIndex + 1) sortedVersions))))))"

section \<open>The persisted store (localStorage)\<close>

text \<open>
  \<^verbatim>\<open>localStorage\<close> is an ordered list of key/value pairs of strings: \<^verbatim>\<open>key(i)\<close>
  enumerates it, \<^verbatim>\<open>setItem\<close> overwrites in place or appends, \<^verbatim>\<open>removeItem\<close> deletes.
  Quota and access failures of the browser are outside the model.
\<close>

type_synonym storage = "(string \<times> string) list"

definition getItem :: "storage \<Rightarrow> string \<Rightarrow> string option" where
  "getItem s k = map_of s k"

definition setItem :: "string \<Rightarrow> string \<Rightarrow> storage \<Rightarrow> storage" where
  "setItem k v s = AList.update k v s"

definition removeItem :: "string \<Rightarrow> storage \<Rightarrow> storage" where
  "removeItem k s = AList.delete k s"

definition COMPANIES :: string where
  "COMPANIES = ''companies''"

definition VERSION_STORAGE_KEY :: string where
  "VERSION_STORAGE_KEY = ''app_version''"

section \<open>Operations on JavaScript values\<close>

definition digit_char :: "nat \<Rightarrow> char" where
  "digit_char d = char_of (48 + d)"

function show_nat :: "nat \<Rightarrow> string" where
  "show_nat n = (if n < 10 then [digit_char n] else show_nat (n div 10) @ [digit_char (n mod 10)])"
  by pat_completeness auto
termination
  by (relation "measure id") auto

declare show_nat.simps [simp del]

definition show_int :: "int \<Rightarrow> string" where
  "show_int i = (if i < 0 then CHR ''-'' # show_nat (nat (- i)) else show_nat (nat i))"

text \<open>An array index: the canonical decimal string of a number below \<open>2^32 - 1\<close>.\<close>

definition is_array_index :: "string \<Rightarrow> bool" where
  "is_array_index k = (k \<noteq> [] \<and> list_all is_digit k \<and> show_nat (decimal_value k) = k
                        \<and> decimal_value k < 4294967295)"

text \<open>The own enumerable properties that \<^verbatim>\<open>{...x}\<close> copies.\<close>

fun own_props :: "json \<Rightarrow> (string \<times> json) list" where
  "own_props (JObj kvs) = kvs"
| "own_props (JArr xs) = zip (map show_nat [0..<length xs]) xs"
| "own_props (JStr s) = zip (map show_nat [0..<length s]) (map (\<lambda>c. JStr [c]) s)"
| "own_props JUndefined = []"
| "own_props JNull = []"
| "own_props (JBool b) = []"
| "own_props (JNum n) = []"

text \<open>
  \<^verbatim>\<open>x[k]\<close>: \<open>None\<close> is a property that is not there. Reading a property of \<^verbatim>\<open>null\<close> or
  \<^verbatim>\<open>undefined\<close> throws a \<^verbatim>\<open>TypeError\<close>, with the message text of V8.
\<close>

definition quoted :: "string \<Rightarrow> string" where
  "quoted k = CHR 0x27 # k @ [CHR 0x27]"

fun get_prop :: "json \<Rightarrow> string \<Rightarrow> error + json option" where
  "get_prop JUndefined k =
     Inl (TypeError (''Cannot read properties of undefined (reading '' @ quoted k @ '')''))"
| "get_prop JNull k =
     Inl (TypeError (''Cannot read properties of null (reading '' @ quoted k @ '')''))"
| "get_prop (JObj kvs) k = Inr (map_of kvs k)"
| "get_prop (JArr xs) k =
     Inr (if k = ''length'' then Some (JNum (int (length xs)))
          else if is_array_index k \<and> decimal_value k < length xs then Some (xs ! decimal_value k)
          else None)"
| "get_prop (JStr s) k =
     Inr (if k = ''length'' then Some (JNum (int (length s)))
          else if is_array_index k \<and> decimal_value k < length s then Some (JStr [s ! decimal_value k])
          else None)"
| "get_prop (JBool b) k = Inr None"
| "get_prop (JNum n) k = Inr None"

text \<open>
  Defining property \<open>k\<close> on an object: an existing key keeps its place; a new array
  index goes among the indices in ascending order, before every other key; any other
  new key goes last.
\<close>

fun insert_index_key :: "string \<Rightarrow> json \<Rightarrow> (string \<times> json) list \<Rightarrow> (string \<times> json) list" where
  "insert_index_key k v [] = [(k, v)]"
| "insert_index_key k v (p # kvs) =
     (if is_array_index (fst p) \<and> decimal_value (fst p) < decimal_value k
      then p # insert_index_key k v kvs
      else (k, v) # p # kvs)"

definition set_prop :: "(string \<times> json) list \<Rightarrow> string \<Rightarrow> json \<Rightarrow> (string \<times> json) list" where
  "set_prop kvs k v =
     (if k \<in> set (map fst kvs) then AList.update k v kvs
      else if is_array_index k then insert_index_key k v kvs
      else kvs @ [(k, v)])"


text \<open>\<^verbatim>\<open>a ?? d\<close>.\<close>

fun nullish_or :: "json option \<Rightarrow> json \<Rightarrow> json" where
  "nullish_or None d = d"
| "nullish_or (Some JUndefined) d = d"
| "nullish_or (Some JNull) d = d"
| "nullish_or (Some v) d = v"

text \<open>A property read of a value that is known to be neither \<^verbatim>\<open>null\<close> nor \<^verbatim>\<open>undefined\<close>.\<close>

definition read_prop :: "json \<Rightarrow> string \<Rightarrow> json option" where
  "read_prop x k = (case get_prop x k of Inl e \<Rightarrow> None | Inr v \<Rightarrow> v)"

fun truthy :: "json \<Rightarrow> bool" where
  "truthy JUndefined = False"
| "truthy JNull = False"
| "truthy (JBool b) = b"
| "truthy (JNum n) = (n \<noteq> 0)"
| "truthy (JStr s) = (s \<noteq> [])"
| "truthy (JArr xs) = True"
| "truthy (JObj kvs) = True"

fun truthy_opt :: "json option \<Rightarrow> bool" where
  "truthy_opt None = False"
| "truthy_opt (Some v) = truthy v"

text \<open>\<^verbatim>\<open>xs.map(f)\<close> for an \<open>f\<close> that may throw: the first throw ends the map.\<close>

fun map_throwing :: "('a \<Rightarrow> error + 'b) \<Rightarrow> 'a list \<Rightarrow> error + 'b list" where
  "map_throwing f [] = Inr []"
| "map_throwing f (x # xs) =
     (case f x of
        Inl e \<Rightarrow> Inl e
      | Inr y \<Rightarrow> (case map_throwing f xs of Inl e \<Rightarrow> Inl e | Inr ys \<Rightarrow> Inr (y # ys)))"

text \<open>The string a template literal makes of a value.\<close>

fun join_with :: "string \<Rightarrow> string list \<Rightarrow> string" where
  "join_with sep [] = []"
| "join_with sep [x] = x"
| "join_with sep (x # y # ys) = x @ sep @ join_with sep (y # ys)"

fun js_to_string :: "json \<Rightarrow> string" where
  "js_to_string JUndefined = ''undefined''"
| "js_to_string JNull = ''null''"
| "js_to_string (JBool b) = (if b then ''true'' else ''false'')"
| "js_to_string (JNum n) = show_int n"
| "js_to_string (JStr s) = s"
| "js_to_string (JArr xs) =
     join_with '','' (map (\<lambda>x. if x = JNull \<or> x = JUndefined then [] else js_to_string x) xs)"
| "js_to_string (JObj kvs) = ''[object Object]''"

text \<open>
  \<^verbatim>\<open>error.message\<close> and \<^verbatim>\<open>error.stack\<close> of a thrown value, \<open>None\<close> when there is no
  such property. The stack text of an engine-made error is engine-specific and left
  empty. Both reads throw when the value thrown is \<^verbatim>\<open>null\<close> or \<^verbatim>\<open>undefined\<close>.
\<close>

fun message_of :: "error \<Rightarrow> error + json option" where
  "message_of (InvalidVersionFormat versionStr) =
     Inr (Some (JStr (''Invalid version format: '' @ versionStr)))"
| "message_of (TypeError m) = Inr (Some (JStr m))"
| "message_of (SyntaxError m) = Inr (Some (JStr m))"
| "message_of (Thrown m st) = Inr (Some (JStr m))"
| "message_of (ThrownValue v) = get_prop v ''message''"


text \<open>The text that \<^verbatim>\<open>${error.message}\<close> puts into a template literal.\<close>

definition error_message :: "error \<Rightarrow> string" where
  "error_message e =
     (case message_of e of Inr (Some m) \<Rightarrow> js_to_string m | _ \<Rightarrow> ''undefined'')"

section \<open>Migration primitives (migrationStrategies.js)\<close>

text \<open>
  \<^verbatim>\<open>JSON.parse\<close> and \<^verbatim>\<open>JSON.stringify\<close> belong to the platform and are parameters:
  \<open>JSON_parse\<close> returns the value or the error it throws.
\<close>

definition add_field_to :: "string \<Rightarrow> json \<Rightarrow> json \<Rightarrow> error + json" where
  "add_field_to fieldName defaultValue company =
     (case get_prop company fieldName of
        Inl e \<Rightarrow> Inl e
      | Inr current \<Rightarrow>
          Inr (JObj (set_prop (own_props company) fieldName (nullish_or current defaultValue))))"

definition addField ::
  "(string \<Rightarrow> error + json) \<Rightarrow> (json \<Rightarrow> string) \<Rightarrow> string \<Rightarrow> json \<Rightarrow> storage
     \<Rightarrow> (error + json) \<times> storage" where
  "addField JSON_parse JSON_stringify fieldName defaultValue s =
     (case getItem s COMPANIES of
        None \<Rightarrow> (Inr (JObj [(''updated'', JNum 0)]), s)
      | Some companiesJson \<Rightarrow>
          if companiesJson = [] then (Inr (JObj [(''updated'', JNum 0)]), s)
          else
            (case JSON_parse companiesJson of
               Inl e \<Rightarrow> (Inl e, s)
             | Inr (JArr companies) \<Rightarrow>
                 (case map_throwing (add_field_to fieldName defaultValue) companies of
                    Inl e \<Rightarrow> (Inl e, s)
                  | Inr updatedCompanies \<Rightarrow>
                      (Inr (JObj [(''updated'', JNum (int (length updatedCompanies))),
                                  (''fieldAdded'', JStr fieldName)]),
                       setItem COMPANIES (JSON_stringify (JArr updatedCompanies)) s))
             | Inr JNull \<Rightarrow>
                 (Inl (TypeError (''Cannot read properties of null (reading ''
                                   @ quoted ''map'' @ '')'')), s)
             | Inr _ \<Rightarrow> (Inl (TypeError ''companies.map is not a function''), s)))"

definition starts_with :: "string \<Rightarrow> string \<Rightarrow> bool" where
  "starts_with p k = (take (length p) k = p)"

text \<open>\<^verbatim>\<open>reviewCacheHelpers.findAllKeys\<close> (migrations.js).\<close>

definition findAllKeys :: "storage \<Rightarrow> string list" where
  "findAllKeys s = filter (\<lambda>key. key \<noteq> [] \<and> starts_with ''reviews_'' key) (map fst s)"

text \<open>
  One turn of the loop of \<^verbatim>\<open>transformReviews\<close>, on the store and the two counters. The
  transformer gets the review, its index and the array, as \<^verbatim>\<open>map\<close> passes them, and does
  not touch the store. \<open>clock n\<close> is the time stamp \<^verbatim>\<open>new Date().toISOString()\<close> gives
  when \<open>n\<close> entries have been rewritten. Only an object has a property \<^verbatim>\<open>reviews\<close>, so
  the two assignments to \<^verbatim>\<open>cache\<close> are written for an object.
\<close>

definition transform_entry ::
  "(string \<Rightarrow> error + json) \<Rightarrow> (json \<Rightarrow> string) \<Rightarrow> (nat \<Rightarrow> string)
     \<Rightarrow> (json \<Rightarrow> nat \<Rightarrow> json list \<Rightarrow> error + json)
     \<Rightarrow> string \<Rightarrow> storage \<times> nat \<times> nat \<Rightarrow> storage \<times> nat \<times> nat" where
  "transform_entry JSON_parse JSON_stringify clock transformer key st =
     (case st of (s, updatedCount, failedCount) \<Rightarrow>
       (case getItem s key of
          None \<Rightarrow> st
        | Some cacheData \<Rightarrow>
            if cacheData = [] then st
            else
              (case JSON_parse cacheData of
                 Inl e \<Rightarrow> (s, updatedCount, failedCount + 1)
               | Inr cache \<Rightarrow>
                   if \<not> truthy cache then st
                   else
                     (case get_prop cache ''reviews'' of
                        Inl e \<Rightarrow> (s, updatedCount, failedCount + 1)
                      | Inr (Some (JArr reviews)) \<Rightarrow>
                          (case map_throwing (\<lambda>(i, review). transformer review i reviews)
                                  (zip [0..<length reviews] reviews) of
                             Inl e \<Rightarrow> (s, updatedCount, failedCount + 1)
                           | Inr transformedReviews \<Rightarrow>
                               (setItem key
                                  (JSON_stringify
                                     (JObj (set_prop
                                        (set_prop (own_props cache) ''reviews''
                                           (JArr transformedReviews))
                                        ''lastMigrated'' (JStr (clock updatedCount)))))
                                  s,
                                updatedCount + 1, failedCount))
                      | Inr _ \<Rightarrow> st))))"

fun transform_loop ::
  "(string \<Rightarrow> error + json) \<Rightarrow> (json \<Rightarrow> string) \<Rightarrow> (nat \<Rightarrow> string)
     \<Rightarrow> (json \<Rightarrow> nat \<Rightarrow> json list \<Rightarrow> error + json)
     \<Rightarrow> string list \<Rightarrow> storage \<times> nat \<times> nat \<Rightarrow> storage \<times> nat \<times> nat" where
  "transform_loop JSON_parse JSON_stringify clock transformer [] st = st"
| "transform_loop JSON_parse JSON_stringify clock transformer (key # keys) st =
     transform_loop JSON_parse JSON_stringify clock transformer keys
       (transform_entry JSON_parse JSON_stringify clock transformer key st)"

definition transformReviews ::
  "(string \<Rightarrow> error + json) \<Rightarrow> (json \<Rightarrow> string) \<Rightarrow> (nat \<Rightarrow> string)
     \<Rightarrow> (json \<Rightarrow> nat \<Rightarrow> json list \<Rightarrow> error + json)
     \<Rightarrow> storage \<Rightarrow> (error + json) \<times> storage" where
  "transformReviews JSON_parse JSON_stringify clock transformer s =
     (let cacheKeys = findAllKeys s in
      case transform_loop JSON_parse JSON_stringify clock transformer cacheKeys (s, 0, 0) of
        (s', updatedCount, failedCount) \<Rightarrow>
          (Inr (JObj [(''processed'', JNum (int (length cacheKeys))),
                      (''updated'', JNum (int updatedCount)),
                      (''failed'', JNum (int failedCount))]),
           s'))"

section \<open>Migration registry and executor (migrations.js)\<close>

text \<open>
  A migration procedure is called with the source and target versions, runs on the
  store, and either throws or returns a value. The registry \<^verbatim>\<open>migrations\<close> maps a version
  string to its procedure; it is an argument of the executor, and the registry of this
  release is empty.
\<close>

type_synonym migration_fn = "string \<Rightarrow> string \<Rightarrow> storage \<Rightarrow> (error + json) \<times> storage"

type_synonym registry = "string \<Rightarrow> migration_fn option"

definition migrations :: registry where
  "migrations = Map.empty"




text \<open>\<^verbatim>\<open>checkMigrationNeeded(storedVersion)\<close>.\<close>

definition checkMigrationNeeded :: "string \<Rightarrow> string option \<Rightarrow> error + bool" where
  "checkMigrationNeeded app storedVersion =
     (case storedVersion of
        None \<Rightarrow> Inr False
      | Some v \<Rightarrow>
          if v = [] then Inr False
          else (case compareVersions v app of Inl e \<Rightarrow> Inl e | Inr c \<Rightarrow> Inr (c \<noteq> 0)))"

text \<open>What \<^verbatim>\<open>executeMigrations\<close> returns, and one entry of its \<^verbatim>\<open>results\<close>.\<close>

datatype error_field =
    NoError
  | ReportedError "json option"
  | CaughtError error

record step_result =
  step_version :: string
  step_success :: "json option"
  step_affectedKeys :: "json option"
  step_details :: json

record migration_run =
  run_success :: bool
  run_message :: string
  run_affectedKeys :: "json list option"
  run_error :: error_field
  run_results :: "step_result list option"

text \<open>\<^verbatim>\<open>keys.forEach((key) => affectedKeys.add(key))\<close> on a \<^verbatim>\<open>Set\<close> in insertion order.\<close>

definition add_keys :: "json list \<Rightarrow> json list \<Rightarrow> json list" where
  "add_keys acc ks = foldl (\<lambda>a k. if k \<in> set a then a else a @ [k]) acc ks"

text \<open>\<^verbatim>\<open>result.error?.message || "Unknown error"\<close> inside the template literal.\<close>

definition failure_reason :: "json option \<Rightarrow> string" where
  "failure_reason err =
     (case err of
        None \<Rightarrow> ''Unknown error''
      | Some JUndefined \<Rightarrow> ''Unknown error''
      | Some JNull \<Rightarrow> ''Unknown error''
      | Some e \<Rightarrow>
          (case get_prop e ''message'' of
             Inr (Some m) \<Rightarrow> if truthy m then js_to_string m else ''Unknown error''
           | _ \<Rightarrow> ''Unknown error''))"

text \<open>
  The \<^verbatim>\<open>for\<close> loop of \<^verbatim>\<open>executeMigrations\<close> over the rest of the path. Its state is the
  \<^verbatim>\<open>results\<close> array, the \<^verbatim>\<open>affectedKeys\<close> set and the store; \<open>calls\<close> is a ghost
  record of the versions whose procedure has been invoked, in order. The loop ends with
  \<open>Inl\<close> of the result returned from inside it, or with \<open>Inr\<close> of the final
  \<^verbatim>\<open>results\<close> and \<^verbatim>\<open>affectedKeys\<close>. When a procedure throws \<^verbatim>\<open>null\<close> or
  \<^verbatim>\<open>undefined\<close>, the read of \<^verbatim>\<open>error.message\<close> in the inner \<^verbatim>\<open>catch\<close> throws in turn and
  the outer \<^verbatim>\<open>catch\<close> makes the result.
\<close>

fun run_path ::
  "registry \<Rightarrow> string \<Rightarrow> version_record list \<Rightarrow> step_result list \<Rightarrow> json list \<Rightarrow> storage
     \<Rightarrow> string list
     \<Rightarrow> (migration_run + step_result list \<times> json list) \<times> storage \<times> string list" where
  "run_path reg storedVersion [] results affectedKeys s calls =
     (Inr (results, affectedKeys), s, calls)"
| "run_path reg storedVersion (versionInfo # rest) results affectedKeys s calls =
     (case reg (version versionInfo) of
        None \<Rightarrow> run_path reg storedVersion rest results affectedKeys s calls
      | Some migrationFn \<Rightarrow>
          (case migrationFn storedVersion (version versionInfo) s of
             (Inl err, s') \<Rightarrow>
               (case message_of err of
                  Inl err' \<Rightarrow>
                    (Inl \<lparr> run_success = False,
                           run_message = ''Migration failed: '' @ error_message err',
                           run_affectedKeys = None,
                           run_error = CaughtError err',
                           run_results = None \<rparr>,
                     s', calls @ [version versionInfo])
                | Inr m \<Rightarrow>
                    (Inl \<lparr> run_success = False,
                           run_message = ''Migration failed for version '' @ version versionInfo
                                           @ '': '' @ error_message err,
                           run_affectedKeys = Some affectedKeys,
                           run_error = CaughtError err,
                           run_results = Some results \<rparr>,
                     s', calls @ [version versionInfo]))
           | (Inr result, s') \<Rightarrow>
               (case get_prop result ''affectedKeys'' of
                  Inl err \<Rightarrow>
                    (Inl \<lparr> run_success = False,
                           run_message = ''Migration failed for version '' @ version versionInfo
                                           @ '': '' @ error_message err,
                           run_affectedKeys = Some affectedKeys,
                           run_error = CaughtError err,
                           run_results = Some results \<rparr>,
                     s', calls @ [version versionInfo])
                | Inr keys \<Rightarrow>
                    (let affectedKeys' =
                           (case keys of Some (JArr ks) \<Rightarrow> add_keys affectedKeys ks
                                       | _ \<Rightarrow> affectedKeys);
                         success = read_prop result ''success'';
                         results' = results @
                           [\<lparr> step_version = version versionInfo, step_success = success,
                              step_affectedKeys = keys, step_details = result \<rparr>]
                     in
                       if \<not> truthy_opt success then
                         (Inl \<lparr> run_success = False,
                                run_message = ''Migration failed for version ''
                                  @ version versionInfo @ '': ''
                                  @ failure_reason (read_prop result ''error''),
                                run_affectedKeys = Some affectedKeys',
                                run_error = ReportedError (read_prop result ''error''),
                                run_results = Some results' \<rparr>,
                          s', calls @ [version versionInfo])
                       else
                         run_path reg storedVersion rest results' affectedKeys' s'
                           (calls @ [version versionInfo])))))"

definition executeMigrations ::
  "string \<Rightarrow> version_record list \<Rightarrow> registry \<Rightarrow> string option \<Rightarrow> storage
     \<Rightarrow> migration_run \<times> storage \<times> string list" where
  "executeMigrations app history reg storedVersion s =
     (let no_migration =
            (\<lparr> run_success = True, run_message = ''No migration needed'',
               run_affectedKeys = None, run_error = NoError, run_results = None \<rparr>, s, [])
      in
      case storedVersion of
        None \<Rightarrow> no_migration
      | Some stored \<Rightarrow>
          if stored = [] \<or> stored = app then no_migration
          else
            (case getMigrationPath history stored app of
               Inl err \<Rightarrow>
                 (\<lparr> run_success = False,
                    run_message = ''Migration failed: '' @ error_message err,
                    run_affectedKeys = None, run_error = CaughtError err,
                    run_results = None \<rparr>,
                  s, [])
             | Inr migrationPath \<Rightarrow>
                 if length migrationPath = 0 then
                   (\<lparr> run_success = True,
                      run_message = ''No migrations required from '' @ stored @ '' to '' @ app,
                      run_affectedKeys = None, run_error = NoError, run_results = None \<rparr>,
                    s, [])
                 else
                   (case run_path reg stored migrationPath [] [] s [] of
                      (Inl failure, s', calls) \<Rightarrow> (failure, s', calls)
                    | (Inr (results, affectedKeys), s', calls) \<Rightarrow>
                        (\<lparr> run_success = True,
                           run_message = ''Successfully migrated from '' @ stored
                                           @ '' to '' @ app,
                           run_affectedKeys = Some affectedKeys, run_error = NoError,
                           run_results = Some results \<rparr>,
                         s', calls))))"

section \<open>Version tracker (versionService.js)\<close>

definition getStoredVersion :: "storage \<Rightarrow> string option" where
  "getStoredVersion s = getItem s VERSION_STORAGE_KEY"

definition saveCurrentVersion :: "string \<Rightarrow> storage \<Rightarrow> storage" where
  "saveCurrentVersion app s = setItem VERSION_STORAGE_KEY app s"

text \<open>The status object; \<open>isNewer\<close> and \<open>isOlder\<close> are absent on a first run.\<close>

record version_status =
  firstRun :: bool
  updated :: bool
  fromVersion :: "string option"
  toVersion :: string
  isNewer :: "bool option"
  isOlder :: "bool option"

definition checkVersionStatus :: "string \<Rightarrow> storage \<Rightarrow> error + version_status" where
  "checkVersionStatus app s =
     (let first_run =
            Inr \<lparr> firstRun = True, updated = False, fromVersion = None, toVersion = app,
                  isNewer = None, isOlder = None \<rparr>
      in
      case getStoredVersion s of
        None \<Rightarrow> first_run
      | Some storedVersion \<Rightarrow>
          if storedVersion = [] then first_run
          else
            (case compareVersions storedVersion app of
               Inl e \<Rightarrow> Inl e
             | Inr versionCompare \<Rightarrow>
                 Inr \<lparr> firstRun = False, updated = (versionCompare \<noteq> 0),
                       fromVersion = Some storedVersion, toVersion = app,
                       isNewer = Some (versionCompare < 0),
                       isOlder = Some (versionCompare > 0) \<rparr>))"

record init_result =
  status :: version_status
  migrationNeeded :: bool
  migrationResult :: migration_run

text \<open>
  \<^verbatim>\<open>initializeVersioning\<close>: what it returns or throws, the store it leaves, and the ghost
  record of the procedures invoked.
\<close>

definition initializeVersioning ::
  "string \<Rightarrow> version_record list \<Rightarrow> registry \<Rightarrow> storage
     \<Rightarrow> (error + init_result) \<times> storage \<times> string list" where
  "initializeVersioning app history reg s =
     (case checkVersionStatus app s of
        Inl e \<Rightarrow> (Inl e, s, [])
      | Inr st \<Rightarrow>
          (let no_migration =
                 (Inr \<lparr> status = st, migrationNeeded = False,
                        migrationResult =
                          \<lparr> run_success = True, run_message = ''No migration needed'',
                            run_affectedKeys = None, run_error = NoError,
                            run_results = None \<rparr> \<rparr>,
                  if firstRun st \<or> updated st then saveCurrentVersion app s else s,
                  [])
           in
             if updated st \<and> isNewer st = Some True then
               (case checkMigrationNeeded app (fromVersion st) of
                  Inl e \<Rightarrow> (Inl e, s, [])
                | Inr needed \<Rightarrow>
                    if needed then
                      (case executeMigrations app history reg (fromVersion st) s of
                         (run, s', calls) \<Rightarrow>
                           (Inr \<lparr> status = st, migrationNeeded = needed,
                                  migrationResult = run \<rparr>,
                            if run_success run then saveCurrentVersion app s' else s',
                            calls))
                    else no_migration)
             else no_migration))"

section \<open>Notions used by the statements\<close>

text \<open>A string is a valid version when \<^verbatim>\<open>parseVersion\<close> accepts it.\<close>

definition valid_version :: "string \<Rightarrow> bool" where
  "valid_version v = (case parseVersion v of Inl e \<Rightarrow> False | Inr p \<Rightarrow> True)"

text \<open>
  The ordering rule in the words of the specification: major, then minor, then patch,
  numerically; with equal numbers a labelled version precedes the unlabelled one, and
  two labelled versions are ordered by their labels, lexicographically.
\<close>

definition version_precedes :: "parsed_version \<Rightarrow> parsed_version \<Rightarrow> bool" where
  "version_precedes a b =
     (major a < major b
      \<or> major a = major b \<and> minor a < minor b
      \<or> major a = major b \<and> minor a = minor b \<and> patch a < patch b
      \<or> major a = major b \<and> minor a = minor b \<and> patch a = patch b
          \<and> (case (label a, label b) of
                (Some la, None) \<Rightarrow> True
              | (Some la, Some lb) \<Rightarrow> la < lb
              | _ \<Rightarrow> False))"

text \<open>
  A sort key for the proofs: the comparison of two valid versions is the comparison of
  their keys in the lexicographic order of tuples.
\<close>

definition version_key :: "parsed_version \<Rightarrow> nat \<times> nat \<times> nat \<times> nat \<times> string" where
  "version_key p =
     (major p, minor p, patch p, (case label p of None \<Rightarrow> (1, []) | Some l \<Rightarrow> (0, l)))"

definition string_key :: "string \<Rightarrow> nat \<times> nat \<times> nat \<times> nat \<times> string" where
  "string_key v = version_key (projr (parseVersion v))"

text \<open>\<open>a\<close> is at most \<open>b\<close>, and \<open>a\<close> is strictly below \<open>b\<close>, by \<^verbatim>\<open>compareVersions\<close>.\<close>

definition version_le :: "string \<Rightarrow> string \<Rightarrow> bool" where
  "version_le a b = (compareVersions a b = Inr (-1) \<or> compareVersions a b = Inr 0)"

definition version_lt :: "string \<Rightarrow> string \<Rightarrow> bool" where
  "version_lt a b = (compareVersions a b = Inr (-1))"

text \<open>A history entry with only the fields that path resolution reads filled in.\<close>

definition release :: "string \<Rightarrow> bool \<Rightarrow> version_record" where
  "release v needs =
     \<lparr> version = v, requiresMigration = needs, migrateFrom = [], storageKeys = [],
       release_notes = [], changes = [], breaking = False \<rparr>"

text \<open>
  Two procedures for the worked examples: one records the target version under a key
  of the store and reports success, the other changes nothing and reports failure.
\<close>

definition marking_step :: "string \<Rightarrow> migration_fn" where
  "marking_step k = (\<lambda>f t s. (Inr (JObj [(''success'', JBool True)]), setItem k t s))"

definition failing_step :: migration_fn where
  "failing_step = (\<lambda>f t s. (Inr (JObj [(''success'', JBool False)]), s))"

text \<open>
  The shape of a version string: three non-empty groups of digits separated by dots,
  then nothing or a dash and a label that is not empty and has no line terminator.
\<close>

definition digits :: "string \<Rightarrow> bool" where
  "digits d = (d \<noteq> [] \<and> list_all is_digit d)"

definition label_ok :: "string option \<Rightarrow> bool" where
  "label_ok l = (case l of None \<Rightarrow> True | Some t \<Rightarrow> t \<noteq> [] \<and> \<not> list_ex is_line_terminator t)"

definition version_text :: "string \<Rightarrow> string \<Rightarrow> string \<Rightarrow> string option \<Rightarrow> string" where
  "version_text d1 d2 d3 l =
     d1 @ ''.'' @ d2 @ ''.'' @ d3 @ (case l of None \<Rightarrow> [] | Some t \<Rightarrow> CHR ''-'' # t)"


section \<open>Numbers and digits\<close>

lemma bit_length_eq: "2 ^ k \<le> n \<Longrightarrow> n < 2 ^ Suc k \<Longrightarrow> bit_length n = Suc k"
proof (induction k arbitrary: n)
  case 0
  then have "n = 1" by simp
  then show ?case by (simp add: bit_length.simps)
next
  case (Suc k)
  then have "2 ^ k \<le> n div 2" "n div 2 < 2 ^ Suc k" by auto
  then have "bit_length (n div 2) = Suc k" by (rule Suc.IH)
  moreover have "n \<noteq> 0" using Suc.prems by auto
  ultimately show ?case by (subst bit_length.simps) simp
qed

lemma round_to_double_exact: "n < 2 ^ 53 \<Longrightarrow> round_to_double n = n"
  by (simp add: round_to_double_def)

lemma digit_value_digit_char: "d < 10 \<Longrightarrow> digit_value (digit_char d) = d"
  by (simp add: digit_value_def digit_char_def)

lemma is_digit_digit_char: "d < 10 \<Longrightarrow> is_digit (digit_char d)"
  by (simp add: is_digit_def digit_char_def less_eq_char_def)

lemma decimal_value_snoc: "decimal_value (ds @ [c]) = 10 * decimal_value ds + digit_value c"
  by (simp add: decimal_value_def)

lemma decimal_value_show_nat: "decimal_value (show_nat n) = n"
proof (induction n rule: show_nat.induct)
  case (1 n)
  show ?case
  proof (cases "n < 10")
    case True
    then show ?thesis
      by (subst show_nat.simps) (simp add: decimal_value_def digit_value_digit_char)
  next
    case False
    then have "decimal_value (show_nat (n div 10)) = n div 10" by (rule 1)
    then show ?thesis
      using False
      by (subst show_nat.simps) (simp add: decimal_value_snoc digit_value_digit_char)
  qed
qed

lemma digits_show_nat: "digits (show_nat n)"
proof (induction n rule: show_nat.induct)
  case (1 n)
  show ?case
  proof (cases "n < 10")
    case True
    then show ?thesis
      by (subst show_nat.simps) (simp add: digits_def is_digit_digit_char)
  next
    case False
    then have "digits (show_nat (n div 10))" by (rule 1)
    then show ?thesis
      using False
      by (subst show_nat.simps) (simp add: digits_def is_digit_digit_char)
  qed
qed

lemma decimal_value_leading_zero: "decimal_value (CHR ''0'' # ds) = decimal_value ds"
  by (simp add: decimal_value_def digit_value_def)

lemma round_to_double_tie: "round_to_double 9007199254740993 = 9007199254740992"
proof -
  have "bit_length 9007199254740993 = Suc 53"
    by (rule bit_length_eq) simp_all
  then show ?thesis
    by (simp add: round_to_double_def Let_def)
qed

section \<open>The order of versions\<close>

text \<open>Unfolding these evaluates the model on concrete version strings and histories.\<close>

lemmas version_eval =
  parseVersion_def match_digits_def is_digit_def parseInt_def decimal_value_def digit_value_def
  round_to_double_def is_line_terminator_def compareVersions_def compare_parsed_def
  valid_version_def

lemmas path_eval = getMigrationPath_def slice_def release_def version_eval

lemma compare_parsed_key:
  "compare_parsed a b =
     (if version_key a < version_key b then -1 else if version_key a = version_key b then 0 else 1)"
  unfolding compare_parsed_def version_key_def
  by (auto simp: less_prod_def split: option.splits)

lemma version_precedes_key: "version_precedes a b = (version_key a < version_key b)"
  unfolding version_precedes_def version_key_def
  by (auto simp: less_prod_def split: option.splits)

lemma valid_version_iff: "valid_version v \<longleftrightarrow> (\<exists>p. parseVersion v = Inr p)"
  by (simp add: valid_version_def split: sum.splits)

lemma parseVersion_error: "parseVersion v = Inl e \<Longrightarrow> e = InvalidVersionFormat v"
  by (auto simp: parseVersion_def split: option.splits prod.splits)

lemma compareVersions_valid:
  "parseVersion a = Inr pa \<Longrightarrow> parseVersion b = Inr pb \<Longrightarrow>
     compareVersions a b = Inr (compare_parsed pa pb)"
  by (simp add: compareVersions_def)

lemma compareVersions_key:
  "valid_version a \<Longrightarrow> valid_version b \<Longrightarrow>
     compareVersions a b =
       Inr (if string_key a < string_key b then -1
            else if string_key a = string_key b then 0 else 1)"
  by (auto simp: valid_version_iff compareVersions_def compare_parsed_key string_key_def)

lemma compareVersions_error:
  "compareVersions a b = Inl e \<longleftrightarrow>
     (\<not> valid_version a \<and> e = InvalidVersionFormat a)
     \<or> (valid_version a \<and> \<not> valid_version b \<and> e = InvalidVersionFormat b)"
  by (auto simp: compareVersions_def valid_version_def dest: parseVersion_error
           split: sum.splits)

lemma version_le_key:
  "valid_version a \<Longrightarrow> valid_version b \<Longrightarrow> version_le a b = (string_key a \<le> string_key b)"
  by (auto simp: version_le_def compareVersions_key)

lemma version_lt_key:
  "valid_version a \<Longrightarrow> valid_version b \<Longrightarrow> version_lt a b = (string_key a < string_key b)"
  by (auto simp: version_lt_def compareVersions_key)

lemma not_digit_dot [simp]: "\<not> is_digit CHR ''.''" "\<not> is_digit CHR ''-''"
  by (simp_all add: is_digit_def less_eq_char_def)

lemma match_digits_append:
  assumes "digits d" "r = [] \<or> \<not> is_digit (hd r)"
  shows "match_digits (d @ r) = Some (d, r)"
proof -
  have all: "\<forall>c \<in> set d. is_digit c" and ne: "d \<noteq> []"
    using assms(1) by (simp_all add: digits_def list_all_iff)
  have r: "takeWhile is_digit r = []" "dropWhile is_digit r = r"
    using assms(2) by (cases r; simp)+
  have "takeWhile is_digit (d @ r) = d" "dropWhile is_digit (d @ r) = r"
    using all r by simp_all
  then show ?thesis using ne by (simp add: match_digits_def)
qed

lemma match_digits_Some:
  assumes "match_digits s = Some (d, r)"
  shows "s = d @ r \<and> digits d"
proof -
  have d: "d = takeWhile is_digit s" "r = dropWhile is_digit s" "d \<noteq> []"
    using assms by (auto simp: match_digits_def split: if_splits)
  have "\<forall>c \<in> set d. is_digit c" unfolding d(1) by (auto dest: set_takeWhileD)
  then show ?thesis using d by (simp add: digits_def list_all_iff)
qed

lemma match_dot_Some: "match_dot r = Some r' \<longleftrightarrow> r = CHR ''.'' # r'"
  by (cases r) auto

lemma match_label_Some:
  "match_label r = Some l \<longleftrightarrow>
     label_ok l \<and> r = (case l of None \<Rightarrow> [] | Some t \<Rightarrow> CHR ''-'' # t)"
  by (cases r; cases l) (auto simp: label_ok_def)

lemma parseVersion_text:
  assumes "digits x" "digits y" "digits z" "label_ok l"
  shows "parseVersion (version_text x y z l) =
           Inr \<lparr> major = round_to_double (decimal_value x),
                 minor = round_to_double (decimal_value y),
                 patch = round_to_double (decimal_value z),
                 label = l, raw = version_text x y z l \<rparr>"
proof -
  let ?tail = "case l of None \<Rightarrow> [] | Some t \<Rightarrow> CHR ''-'' # t"
  have m1: "match_digits (x @ CHR ''.'' # y @ CHR ''.'' # z @ ?tail)
              = Some (x, CHR ''.'' # y @ CHR ''.'' # z @ ?tail)"
    using assms(1) by (rule match_digits_append) simp
  have m2: "match_digits (y @ CHR ''.'' # z @ ?tail) = Some (y, CHR ''.'' # z @ ?tail)"
    using assms(2) by (rule match_digits_append) simp
  have m3: "match_digits (z @ ?tail) = Some (z, ?tail)"
    using assms(3) by (rule match_digits_append) (simp split: option.splits)
  have m4: "match_label ?tail = Some l"
    using assms(4) by (simp add: match_label_Some)
  show ?thesis
    by (simp add: parseVersion_def version_text_def m1 m2 m3 m4 parseInt_def)
qed

lemma parseVersion_shape:
  assumes "parseVersion a = Inr pa"
  shows "\<exists>d1 d2 d3. digits d1 \<and> digits d2 \<and> digits d3 \<and> label_ok (label pa)
           \<and> a = version_text d1 d2 d3 (label pa)
           \<and> major pa = round_to_double (decimal_value d1)
           \<and> minor pa = round_to_double (decimal_value d2)
           \<and> patch pa = round_to_double (decimal_value d3)"
proof -
  from assms obtain d1 r1 r1' d2 r2 r2' d3 r3 l where
    m: "match_digits a = Some (d1, r1)" "match_dot r1 = Some r1'"
       "match_digits r1' = Some (d2, r2)" "match_dot r2 = Some r2'"
       "match_digits r2' = Some (d3, r3)" "match_label r3 = Some l"
    and pa: "pa = \<lparr> major = parseInt d1, minor = parseInt d2, patch = parseInt d3,
                     label = l, raw = a \<rparr>"
    by (auto simp: parseVersion_def split: option.splits prod.splits)
  have "a = d1 @ r1" "digits d1" "r1 = CHR ''.'' # r1'" "r1' = d2 @ r2" "digits d2"
    "r2 = CHR ''.'' # r2'" "r2' = d3 @ r3" "digits d3"
    "label_ok l" "r3 = (case l of None \<Rightarrow> [] | Some t \<Rightarrow> CHR ''-'' # t)"
    using m match_digits_Some [of a d1 r1] match_digits_Some [of r1' d2 r2]
      match_digits_Some [of r2' d3 r3] match_label_Some [of r3 l]
    by (simp_all add: match_dot_Some)
  then show ?thesis
    unfolding pa by (auto simp: version_text_def parseInt_def)
qed



lemma show_nat_1204: "show_nat 1204 = ''1204''"
  by code_simp

text \<open>
  C7, as the code has it. For valid version strings \<^verbatim>\<open>compareVersions\<close> gives \<open>-1\<close>,
  \<open>0\<close> or \<open>1\<close> by the rule of the specification applied to the parsed fields (major,
  then minor, then patch, then unlabelled above labelled, then labels
  lexicographically); swapping the arguments negates it, it is \<open>0\<close> exactly when neither
  argument is greater, and it is transitive, strictly and weakly. A string is valid
  exactly when it is three non-empty groups of digits joined by dots, with an optional
  dash and label, and each numeric field is the double \<^verbatim>\<open>parseInt\<close> makes of its group:
  the decimal value of the digits (leading zeros do not count) when below \<open>2^53\<close>,
  rounded above, as \<open>9007199254740993\<close> is to \<open>9007199254740992\<close>. So on canonical
  strings with parts below \<open>2^53\<close> the comparison is that of the numbers written.
\<close>

theorem compareVersions_total_order:
  assumes "parseVersion a = Inr pa" "parseVersion b = Inr pb" "parseVersion c = Inr pc"
  shows "compareVersions a b =
           Inr (if version_precedes pa pb then -1 else if version_precedes pb pa then 1 else 0)
       \<and> (\<exists>i \<in> {-1, 0, 1}. compareVersions a b = Inr i \<and> compareVersions b a = Inr (- i))
       \<and> (compareVersions a b = Inr 0
            \<longleftrightarrow> compareVersions a b \<noteq> Inr 1 \<and> compareVersions b a \<noteq> Inr 1)
       \<and> compareVersions a a = Inr 0
       \<and> (compareVersions a b = Inr (-1) \<and> compareVersions b c = Inr (-1)
            \<longrightarrow> compareVersions a c = Inr (-1))
       \<and> (version_le a b \<and> version_le b c \<longrightarrow> version_le a c)
       \<and> (\<exists>d1 d2 d3. digits d1 \<and> digits d2 \<and> digits d3 \<and> label_ok (label pa)
             \<and> a = version_text d1 d2 d3 (label pa)
             \<and> major pa = round_to_double (decimal_value d1)
             \<and> minor pa = round_to_double (decimal_value d2)
             \<and> patch pa = round_to_double (decimal_value d3))
       \<and> (digits x \<and> digits y \<and> digits z \<and> label_ok l \<longrightarrow>
            parseVersion (version_text x y z l) =
              Inr \<lparr> major = round_to_double (decimal_value x),
                    minor = round_to_double (decimal_value y),
                    patch = round_to_double (decimal_value z),
                    label = l, raw = version_text x y z l \<rparr>)
       \<and> digits (show_nat n) \<and> decimal_value (show_nat n) = n
       \<and> decimal_value (CHR ''0'' # x) = decimal_value x
       \<and> (n < 2 ^ 53 \<longrightarrow> round_to_double n = n)
       \<and> round_to_double 9007199254740993 = 9007199254740992
       \<and> (x1 < 2 ^ 53 \<and> y1 < 2 ^ 53 \<and> z1 < 2 ^ 53 \<and> x2 < 2 ^ 53 \<and> y2 < 2 ^ 53 \<and> z2 < 2 ^ 53
           \<and> label_ok l1 \<and> label_ok l2 \<longrightarrow>
            compareVersions (version_text (show_nat x1) (show_nat y1) (show_nat z1) l1)
                            (version_text (show_nat x2) (show_nat y2) (show_nat z2) l2) =
              Inr (if version_precedes
                        \<lparr> major = x1, minor = y1, patch = z1, label = l1, raw = [] \<rparr>
                        \<lparr> major = x2, minor = y2, patch = z2, label = l2, raw = [] \<rparr> then -1
                   else if version_precedes
                        \<lparr> major = x2, minor = y2, patch = z2, label = l2, raw = [] \<rparr>
                        \<lparr> major = x1, minor = y1, patch = z1, label = l1, raw = [] \<rparr> then 1
                   else 0))
       \<and> show_nat 1204 = ''1204''
       \<and> compareVersions ''1.0.0'' ''1.0.0-alpha'' = Inr 1
       \<and> compareVersions ''01.10.0'' ''1.9.0'' = Inr 1"
proof -
  have ex1: "compareVersions ''1.0.0'' ''1.0.0-alpha'' = Inr 1"
    by (simp add: version_eval)
  have ex2: "compareVersions ''01.10.0'' ''1.9.0'' = Inr 1"
    by (simp add: version_eval)
  have order: "compareVersions a b =
           Inr (if version_precedes pa pb then -1 else if version_precedes pb pa then 1 else 0)
       \<and> (\<exists>i \<in> {-1, 0, 1}. compareVersions a b = Inr i \<and> compareVersions b a = Inr (- i))
       \<and> (compareVersions a b = Inr 0
            \<longleftrightarrow> compareVersions a b \<noteq> Inr 1 \<and> compareVersions b a \<noteq> Inr 1)
       \<and> compareVersions a a = Inr 0
       \<and> (compareVersions a b = Inr (-1) \<and> compareVersions b c = Inr (-1)
            \<longrightarrow> compareVersions a c = Inr (-1))
       \<and> (version_le a b \<and> version_le b c \<longrightarrow> version_le a c)"
    using assms
    by (auto simp: compareVersions_valid compare_parsed_key version_precedes_key version_le_def)
  have shape: "\<exists>d1 d2 d3. digits d1 \<and> digits d2 \<and> digits d3 \<and> label_ok (label pa)
             \<and> a = version_text d1 d2 d3 (label pa)
             \<and> major pa = round_to_double (decimal_value d1)
             \<and> minor pa = round_to_double (decimal_value d2)
             \<and> patch pa = round_to_double (decimal_value d3)"
    using assms(1) by (rule parseVersion_shape)
  have parse: "digits x \<and> digits y \<and> digits z \<and> label_ok l \<longrightarrow>
            parseVersion (version_text x y z l) =
              Inr \<lparr> major = round_to_double (decimal_value x),
                    minor = round_to_double (decimal_value y),
                    patch = round_to_double (decimal_value z),
                    label = l, raw = version_text x y z l \<rparr>"
    by (simp add: parseVersion_text)
  have canon: "compareVersions (version_text (show_nat x1) (show_nat y1) (show_nat z1) l1)
                            (version_text (show_nat x2) (show_nat y2) (show_nat z2) l2) =
              Inr (if version_precedes
                        \<lparr> major = x1, minor = y1, patch = z1, label = l1, raw = [] \<rparr>
                        \<lparr> major = x2, minor = y2, patch = z2, label = l2, raw = [] \<rparr> then -1
                   else if version_precedes
                        \<lparr> major = x2, minor = y2, patch = z2, label = l2, raw = [] \<rparr>
                        \<lparr> major = x1, minor = y1, patch = z1, label = l1, raw = [] \<rparr> then 1
                   else 0)"
    if "x1 < 2 ^ 53" "y1 < 2 ^ 53" "z1 < 2 ^ 53" "x2 < 2 ^ 53" "y2 < 2 ^ 53" "z2 < 2 ^ 53"
      "label_ok l1" "label_ok l2"
  proof -
    have p1: "parseVersion (version_text (show_nat x1) (show_nat y1) (show_nat z1) l1) =
                Inr \<lparr> major = x1, minor = y1, patch = z1, label = l1,
                      raw = version_text (show_nat x1) (show_nat y1) (show_nat z1) l1 \<rparr>"
      using that
      by (simp add: parseVersion_text digits_show_nat decimal_value_show_nat round_to_double_exact)
    have p2: "parseVersion (version_text (show_nat x2) (show_nat y2) (show_nat z2) l2) =
                Inr \<lparr> major = x2, minor = y2, patch = z2, label = l2,
                      raw = version_text (show_nat x2) (show_nat y2) (show_nat z2) l2 \<rparr>"
      using that
      by (simp add: parseVersion_text digits_show_nat decimal_value_show_nat round_to_double_exact)
    have k1: "version_key \<lparr> major = x1, minor = y1, patch = z1, label = l1,
                      raw = version_text (show_nat x1) (show_nat y1) (show_nat z1) l1 \<rparr>
              = version_key \<lparr> major = x1, minor = y1, patch = z1, label = l1, raw = [] \<rparr>"
      by (simp add: version_key_def)
    have k2: "version_key \<lparr> major = x2, minor = y2, patch = z2, label = l2,
                      raw = version_text (show_nat x2) (show_nat y2) (show_nat z2) l2 \<rparr>
              = version_key \<lparr> major = x2, minor = y2, patch = z2, label = l2, raw = [] \<rparr>"
      by (simp add: version_key_def)
    show ?thesis
      by (simp add: compareVersions_valid [OF p1 p2] compare_parsed_key version_precedes_key
            k1 k2)
  qed
  show ?thesis
    apply (intro conjI)
    subgoal using order by blast
    subgoal using order by blast
    subgoal using order by blast
    subgoal using order by blast
    subgoal using order by blast
    subgoal using order by blast
    subgoal by (rule shape)
    subgoal by (rule parse)
    subgoal by (rule digits_show_nat)
    subgoal by (rule decimal_value_show_nat)
    subgoal by (rule decimal_value_leading_zero)
    subgoal by (simp add: round_to_double_exact)
    subgoal by (rule round_to_double_tie)
    subgoal by (intro impI, elim conjE, rule canon)
    subgoal by (rule show_nat_1204)
    subgoal by (rule ex1)
    subgoal by (rule ex2)
    done
qed

theorem compareVersions_rounding_counterexample:
  "compareVersions ''9007199254740993.0.0'' ''9007199254740992.0.0'' = Inr 0
   \<and> decimal_value ''9007199254740993'' = 9007199254740993
   \<and> decimal_value ''9007199254740992'' = 9007199254740992
   \<and> (9007199254740992 :: nat) < 9007199254740993"
proof -
  have a: "decimal_value ''9007199254740993'' = 9007199254740993"
    and b: "decimal_value ''9007199254740992'' = 9007199254740992"
    by (simp_all add: decimal_value_def digit_value_def)
  have z: "decimal_value ''0'' = 0" by (simp add: decimal_value_def digit_value_def)
  have d: "digits ''9007199254740993''" "digits ''9007199254740992''" "digits ''0''"
    by (simp_all add: digits_def is_digit_def less_eq_char_def)
  have "bit_length 9007199254740992 = Suc 53"
    by (rule bit_length_eq) simp_all
  then have e: "round_to_double 9007199254740992 = 9007199254740992"
    by (simp add: round_to_double_def Let_def)
  have pa: "parseVersion ''9007199254740993.0.0'' =
              Inr \<lparr> major = 9007199254740992, minor = 0, patch = 0, label = None,
                    raw = ''9007199254740993.0.0'' \<rparr>"
    using parseVersion_text [OF d(1) d(3) d(3), of None]
    by (simp add: version_text_def label_ok_def a z round_to_double_tie round_to_double_exact)
  have pb: "parseVersion ''9007199254740992.0.0'' =
              Inr \<lparr> major = 9007199254740992, minor = 0, patch = 0, label = None,
                    raw = ''9007199254740992.0.0'' \<rparr>"
    using parseVersion_text [OF d(2) d(3) d(3), of None]
    by (simp add: version_text_def label_ok_def b z round_to_double_exact e)
  have "compareVersions ''9007199254740993.0.0'' ''9007199254740992.0.0'' = Inr 0"
    by (simp add: compareVersions_valid [OF pa pb] compare_parsed_def)
  then show ?thesis using a b by simp
qed

theorem compareVersions_total_order_witness:
  "compareVersions ''1.0.0-alpha'' ''1.0.0'' = Inr (-1)
   \<and> compareVersions ''1.0.0'' ''1.0.0-alpha'' = Inr 1
   \<and> compareVersions ''1.0.0'' ''1.2.0-beta'' = Inr (-1)
   \<and> compareVersions ''1.0.0-alpha'' ''1.2.0-beta'' = Inr (-1)
   \<and> version_le ''1.0.0-alpha'' ''1.2.0-beta''
   \<and> compareVersions ''01.10.0'' ''1.9.0'' = Inr 1"
proof -
  have a: "parseVersion ''1.0.0-alpha''
             = Inr \<lparr>major = 1, minor = 0, patch = 0, label = Some ''alpha'', raw = ''1.0.0-alpha''\<rparr>"
    by (simp add: version_eval)
  have b: "parseVersion ''1.0.0''
             = Inr \<lparr>major = 1, minor = 0, patch = 0, label = None, raw = ''1.0.0''\<rparr>"
    by (simp add: version_eval)
  have c: "parseVersion ''1.2.0-beta''
             = Inr \<lparr>major = 1, minor = 2, patch = 0, label = Some ''beta'', raw = ''1.2.0-beta''\<rparr>"
    by (simp add: version_eval)
  have ab: "compareVersions ''1.0.0-alpha'' ''1.0.0'' = Inr (-1)"
    using compareVersions_total_order [OF a b c] by (simp add: version_precedes_def)
  have bc: "compareVersions ''1.0.0'' ''1.2.0-beta'' = Inr (-1)"
    using compareVersions_total_order [OF b c a] by (simp add: version_precedes_def)
  from compareVersions_total_order [OF a b c] ab bc show ?thesis
    by (simp add: version_le_def)
qed

section \<open>Path resolution\<close>

lemma insert_sorted_insort:
  "valid_version (version x) \<Longrightarrow> \<forall>y \<in> set ys. valid_version (version y) \<Longrightarrow>
     insert_sorted x ys = Inr (insort_key (\<lambda>r. string_key (version r)) x ys)"
  by (induction ys) (auto simp: compareVersions_key)

lemma sort_versions_sort_key:
  "\<forall>r \<in> set h. valid_version (version r) \<Longrightarrow>
     sort_versions h = Inr (sort_key (\<lambda>r. string_key (version r)) h)"
  by (induction h) (simp_all add: insert_sorted_insort)

lemma findIndex_Some:
  "findIndex P xs = Some i \<longleftrightarrow> i < length xs \<and> P (xs ! i) \<and> (\<forall>j < i. \<not> P (xs ! j))"
proof (induction xs arbitrary: i)
  case Nil
  then show ?case by simp
next
  case (Cons x xs)
  show ?case
  proof (cases "P x")
    case True
    then show ?thesis by (cases i) auto
  next
    case False
    then show ?thesis
      by (cases i) (auto simp: Cons.IH less_Suc_eq_0_disj nth_Cons split: nat.splits)
  qed
qed

lemma findIndex_None: "findIndex P xs = None \<longleftrightarrow> (\<forall>x \<in> set xs. \<not> P x)"
  by (induction xs) auto

lemma slice_nths: "slice (Suc i) (Suc j) xs = nths xs {i<..j}"
proof -
  have "take (j - i) (drop (Suc i) xs) = nths (drop (Suc i) xs) {..<j - i}"
    by (rule nths_upt_eq_take[symmetric])
  also have "\<dots> = nths xs ((+) (Suc i) ` {..<j - i})"
    by (rule nths_drop)
  also have "(+) (Suc i) ` {..<j - i} = {i<..j}"
  proof (intro set_eqI iffI)
    fix x assume "x \<in> {i<..j}"
    then have "x = Suc i + (x - Suc i)" "x - Suc i < j - i" by auto
    then show "x \<in> (+) (Suc i) ` {..<j - i}" by blast
  qed auto
  finally show ?thesis by (simp add: slice_def)
qed

lemma nths_strict_sorted:
  fixes f :: "'a \<Rightarrow> 'b::linorder"
  assumes "sorted_wrt (\<lambda>a b. f a < f b) xs" "i < length xs" "j < length xs"
  shows "nths xs {i<..j} = filter (\<lambda>x. f (xs ! i) < f x \<and> f x \<le> f (xs ! j)) xs"
proof -
  have lt: "f (xs ! a) < f (xs ! b)" if "a < b" "b < length xs" for a b
    using assms(1) that by (simp add: sorted_wrt_iff_nth_less)
  have mono: "(f (xs ! a) < f (xs ! b)) = (a < b)" if "a < length xs" "b < length xs" for a b
  proof (cases a b rule: linorder_cases)
    case less
    then show ?thesis using lt that by simp
  next
    case equal
    then show ?thesis by simp
  next
    case greater
    then have "f (xs ! b) < f (xs ! a)" using lt that by simp
    then show ?thesis using greater by simp
  qed
  have mono_le: "(f (xs ! a) \<le> f (xs ! b)) = (a \<le> b)" if "a < length xs" "b < length xs" for a b
    using mono [OF that(2) that(1)] by (simp add: linorder_not_less [symmetric])
  have "filter (\<lambda>x. f (xs ! i) < f x \<and> f x \<le> f (xs ! j)) xs
      = nths xs {k. k < length xs \<and> f (xs ! i) < f (xs ! k) \<and> f (xs ! k) \<le> f (xs ! j)}"
    by (rule filter_eq_nths)
  also have "{k. k < length xs \<and> f (xs ! i) < f (xs ! k) \<and> f (xs ! k) \<le> f (xs ! j)}
      = {k. k < length xs \<and> k \<in> {i<..j}}"
    using assms(2,3) by (auto simp: mono mono_le)
  also have "nths xs {k. k < length xs \<and> k \<in> {i<..j}} = nths xs {i<..j}"
    unfolding nths_def
    by (rule arg_cong[where f="map fst"], rule filter_cong) (auto simp: in_set_zip)
  finally show ?thesis by simp
qed

lemma sort_versions_props:
  assumes "\<forall>r \<in> set h. valid_version (version r)"
  shows "\<exists>vs. sort_versions h = Inr vs \<and> mset vs = mset h
           \<and> sorted_wrt (\<lambda>a b. version_le (version a) (version b)) vs
           \<and> sorted (map (\<lambda>r. string_key (version r)) vs)"
proof -
  let ?k = "\<lambda>r. string_key (version r)"
  let ?s = "sort_key ?k h"
  have s: "sort_versions h = Inr ?s" using assms by (rule sort_versions_sort_key)
  have m: "mset ?s = mset h" by simp
  have k: "sorted (map ?k ?s)" by (rule sorted_sort_key)
  have v: "\<forall>r \<in> set ?s. valid_version (version r)" using assms by simp
  have "sorted_wrt (\<lambda>a b. ?k a \<le> ?k b) ?s"
    using k by (simp add: sorted_wrt_map)
  then have "sorted_wrt (\<lambda>a b. version_le (version a) (version b)) ?s"
    by (rule sorted_wrt_mono_rel [rotated]) (use v in \<open>simp add: version_le_key\<close>)
  with s m k show ?thesis by blast
qed

lemma getMigrationPath_same: "getMigrationPath h v v = Inr []"
  by (simp add: getMigrationPath_def)

lemma findIndex_present:
  "v \<in> set (map version xs) \<Longrightarrow> \<exists>i. findIndex (\<lambda>r. version r = v) xs = Some i"
  by (cases "findIndex (\<lambda>r. version r = v) xs") (auto simp: findIndex_None)

lemma getMigrationPath_positional:
  assumes "sort_versions h = Inr vs"
    and "findIndex (\<lambda>r. version r = a) vs = Some i"
    and "findIndex (\<lambda>r. version r = b) vs = Some j"
  shows "getMigrationPath h a b = Inr (filter requiresMigration (nths vs {i<..j}))"
proof (cases "a = b")
  case True
  then have "i = j" using assms by simp
  then show ?thesis using True by (simp add: getMigrationPath_def)
next
  case False
  then show ?thesis using assms by (simp add: getMigrationPath_def slice_nths)
qed


lemma subseq_set: "subseq xs ys \<Longrightarrow> set xs \<subseteq> set ys"
  by (induction rule: list_emb.induct) auto

lemma sorted_wrt_subseq:
  "subseq xs ys \<Longrightarrow> sorted_wrt R ys \<Longrightarrow> sorted_wrt R xs"
proof (induction rule: list_emb.induct)
  case (list_emb_Nil ys)
  then show ?case by simp
next
  case (list_emb_Cons xs ys y)
  then show ?case by simp
next
  case (list_emb_Cons2 x y xs ys)
  then have "set xs \<subseteq> set ys" by (simp add: subseq_set)
  with list_emb_Cons2 show ?case by auto
qed

text \<open>
  C4. When every version of the history is valid and \<open>fromV\<close> and \<open>toV\<close> are both in
  it, the sort succeeds with a stable ascending arrangement \<open>vs\<close> of the history, and
  \<^verbatim>\<open>getMigrationPath\<close> returns the entries of \<open>vs\<close> at the positions strictly after
  that of \<open>fromV\<close> up to and including that of \<open>toV\<close>, filtered to
  \<^verbatim>\<open>requiresMigration\<close>. The path is a subsequence of \<open>vs\<close> and ascends. When the history
  is strictly increasing, as the data model requires, the path is exactly the entries
  that need migration with version above \<open>fromV\<close> and at most \<open>toV\<close>. For every
  \<open>v\<close>, the path from \<open>v\<close> to \<open>v\<close> is empty.
\<close>

theorem getMigrationPath_slice:
  assumes valid: "\<forall>r \<in> set history. valid_version (version r)"
    and from_in: "fromV \<in> set (map version history)"
    and to_in: "toV \<in> set (map version history)"
  shows "\<exists>vs i j path.
            sort_versions history = Inr vs \<and> mset vs = mset history
          \<and> sorted_wrt (\<lambda>a b. version_le (version a) (version b)) vs
          \<and> findIndex (\<lambda>r. version r = fromV) vs = Some i
          \<and> findIndex (\<lambda>r. version r = toV) vs = Some j
          \<and> getMigrationPath history fromV toV = Inr path
          \<and> path = filter requiresMigration (nths vs {i<..j})
          \<and> subseq path vs
          \<and> sorted_wrt (\<lambda>a b. version_le (version a) (version b)) path
          \<and> (sorted_wrt (\<lambda>a b. version_lt (version a) (version b)) vs \<longrightarrow>
                path = filter (\<lambda>r. requiresMigration r \<and> version_lt fromV (version r)
                                      \<and> version_le (version r) toV) vs)
          \<and> getMigrationPath history v v = Inr []"
proof -
  let ?k = "\<lambda>r. string_key (version r)"
  obtain vs where vs: "sort_versions history = Inr vs" and m: "mset vs = mset history"
    and le: "sorted_wrt (\<lambda>a b. version_le (version a) (version b)) vs"
    using sort_versions_props [OF valid] by blast
  have set_vs: "set vs = set history" using m by (rule mset_eq_setD)
  have valid_vs: "\<forall>r \<in> set vs. valid_version (version r)" using valid set_vs by simp
  obtain i where i: "findIndex (\<lambda>r. version r = fromV) vs = Some i"
    using findIndex_present [of fromV vs] from_in set_vs by auto
  obtain j where j: "findIndex (\<lambda>r. version r = toV) vs = Some j"
    using findIndex_present [of toV vs] to_in set_vs by auto
  define path where "path = filter requiresMigration (nths vs {i<..j})"
  have p: "getMigrationPath history fromV toV = Inr path"
    unfolding path_def using vs i j by (rule getMigrationPath_positional)
  have "subseq (nths vs {i<..j}) vs" using subseq_conv_nths by blast
  then have sub: "subseq path vs"
    unfolding path_def using subseq_filter_left subseq_order.trans by blast
  have asc: "sorted_wrt (\<lambda>a b. version_le (version a) (version b)) path"
    using sub le by (rule sorted_wrt_subseq)
  have strict: "path = filter (\<lambda>r. requiresMigration r \<and> version_lt fromV (version r)
                                      \<and> version_le (version r) toV) vs"
    if st: "sorted_wrt (\<lambda>a b. version_lt (version a) (version b)) vs"
  proof -
    have il: "i < length vs" and iv: "version (vs ! i) = fromV"
      using i by (simp_all add: findIndex_Some)
    have jl: "j < length vs" and jv: "version (vs ! j) = toV"
      using j by (simp_all add: findIndex_Some)
    have vf: "valid_version fromV" using il iv valid_vs nth_mem by metis
    have vt: "valid_version toV" using jl jv valid_vs nth_mem by metis
    have "sorted_wrt (\<lambda>a b. ?k a < ?k b) vs"
      using st by (rule sorted_wrt_mono_rel [rotated]) (use valid_vs in \<open>simp add: version_lt_key\<close>)
    then have "nths vs {i<..j} = filter (\<lambda>x. ?k (vs ! i) < ?k x \<and> ?k x \<le> ?k (vs ! j)) vs"
      using il jl by (rule nths_strict_sorted)
    also have "\<dots> = filter (\<lambda>r. version_lt fromV (version r)
                               \<and> version_le (version r) toV) vs"
      by (rule filter_cong) (use valid_vs vf vt iv jv in \<open>simp_all add: version_lt_key version_le_key\<close>)
    finally show ?thesis
      unfolding path_def by (simp add: conj_commute conj_left_commute)
  qed
  have same: "getMigrationPath history v v = Inr []" by (rule getMigrationPath_same)
  show ?thesis
    apply (rule exI [of _ vs], rule exI [of _ i], rule exI [of _ j], rule exI [of _ path])
    using vs m le i j p path_def sub asc strict same by simp
qed

theorem getMigrationPath_slice_witness:
  "getMigrationPath [release ''1.2.0'' True, release ''1.0.0'' False, release ''1.1.0'' True,
                     release ''1.3.0-beta'' True] ''1.0.0'' ''1.2.0''
     = Inr [release ''1.1.0'' True, release ''1.2.0'' True]
   \<and> sort_versions [release ''1.2.0'' True, release ''1.0.0'' False, release ''1.1.0'' True,
                     release ''1.3.0-beta'' True]
     = Inr [release ''1.0.0'' False, release ''1.1.0'' True, release ''1.2.0'' True,
            release ''1.3.0-beta'' True]
   \<and> subseq [release ''1.1.0'' True, release ''1.2.0'' True]
        [release ''1.0.0'' False, release ''1.1.0'' True, release ''1.2.0'' True,
         release ''1.3.0-beta'' True]"
proof -
  let ?h = "[release ''1.2.0'' True, release ''1.0.0'' False, release ''1.1.0'' True,
             release ''1.3.0-beta'' True]"
  have valid: "\<forall>r \<in> set ?h. valid_version (version r)"
    by (simp add: path_eval)
  have from_in: "''1.0.0'' \<in> set (map version ?h)" and to_in: "''1.2.0'' \<in> set (map version ?h)"
    by (simp_all add: release_def)
  have path: "getMigrationPath ?h ''1.0.0'' ''1.2.0''
                = Inr [release ''1.1.0'' True, release ''1.2.0'' True]"
    by (simp add: path_eval)
  have sorted: "sort_versions ?h
                = Inr [release ''1.0.0'' False, release ''1.1.0'' True, release ''1.2.0'' True,
                       release ''1.3.0-beta'' True]"
    by (simp add: path_eval)
  from getMigrationPath_slice [OF valid from_in to_in, of "''1.0.0''"] path sorted
  show ?thesis by auto
qed

lemma insert_sorted_set: "insert_sorted x ys = Inr zs \<Longrightarrow> set zs = insert x (set ys)"
proof (induction ys arbitrary: zs)
  case Nil
  then show ?case by auto
next
  case (Cons y ys)
  show ?case
  proof (cases "compareVersions (version x) (version y)")
    case (Inl e)
    with Cons.prems show ?thesis by simp
  next
    case (Inr c)
    show ?thesis
    proof (cases "c \<le> 0")
      case True
      with Cons.prems Inr show ?thesis by auto
    next
      case False
      then obtain ws where "insert_sorted x ys = Inr ws" "zs = y # ws"
        using Cons.prems Inr by (cases "insert_sorted x ys") auto
      with Cons.IH show ?thesis by auto
    qed
  qed
qed

lemma sort_versions_set: "sort_versions h = Inr vs \<Longrightarrow> set vs = set h"
proof (induction h arbitrary: vs)
  case Nil
  then show ?case by auto
next
  case (Cons x xs)
  then obtain ys where ys: "sort_versions xs = Inr ys" "insert_sorted x ys = Inr vs"
    by (cases "sort_versions xs") auto
  then show ?case using Cons.IH insert_sorted_set by fastforce
qed

lemma insert_sorted_error:
  "insert_sorted x ys = Inl e \<Longrightarrow>
     \<exists>v \<in> insert (version x) (set (map version ys)). \<not> valid_version v \<and> e = InvalidVersionFormat v"
proof (induction ys)
  case Nil
  then show ?case by simp
next
  case (Cons y ys)
  show ?case
  proof (cases "compareVersions (version x) (version y)")
    case (Inl e')
    then have "e' = e" using Cons.prems by simp
    then show ?thesis using Inl by (auto simp: compareVersions_error)
  next
    case (Inr c)
    then have "insert_sorted x ys = Inl e"
      using Cons.prems by (auto split: if_splits sum.splits)
    then show ?thesis using Cons.IH by auto
  qed
qed

lemma sort_versions_error:
  "sort_versions h = Inl e \<Longrightarrow>
     \<exists>v \<in> set (map version h). \<not> valid_version v \<and> e = InvalidVersionFormat v"
proof (induction h)
  case Nil
  then show ?case by simp
next
  case (Cons x xs)
  show ?case
  proof (cases "sort_versions xs")
    case (Inl e')
    then have "e' = e" using Cons.prems by simp
    then show ?thesis using Inl Cons.IH by auto
  next
    case (Inr ys)
    then have "insert_sorted x ys = Inl e" using Cons.prems by simp
    moreover have "set ys = set xs" using Inr by (rule sort_versions_set)
    ultimately show ?thesis using insert_sorted_error [of x ys e] by auto
  qed
qed

text \<open>
  C5, as the code has it. When \<open>fromV\<close> and \<open>toV\<close> differ and one of them is not in
  the history, no migration is attempted: \<^verbatim>\<open>executeMigrations\<close> invokes no procedure and
  leaves the store as it was. Path resolution has no failure for an unknown version:
  \<^verbatim>\<open>getMigrationPath\<close> returns the empty path, and \<^verbatim>\<open>executeMigrations\<close> reports success
  (``No migrations required'', or ``No migration needed'' when the stored version is the
  empty string). The one failure there is comes from a history that cannot be sorted
  because one of its versions does not parse: \<^verbatim>\<open>getMigrationPath\<close> then throws the
  \<^verbatim>\<open>InvalidVersionFormat\<close> error of such a version, which \<^verbatim>\<open>executeMigrations\<close> reports as
  failure unless the stored version is empty.
\<close>

theorem unknown_version_no_migration:
  assumes distinct: "fromV \<noteq> toV"
    and absent: "fromV \<notin> set (map version history) \<or> toV \<notin> set (map version history)"
  shows "snd (executeMigrations toV history reg (Some fromV) s) = (s, [])
       \<and> (getMigrationPath history fromV toV = Inr []
           \<or> (\<exists>v \<in> set (map version history). \<not> valid_version v
                 \<and> getMigrationPath history fromV toV = Inl (InvalidVersionFormat v)))
       \<and> (\<forall>vs. sort_versions history = Inr vs \<longrightarrow>
             getMigrationPath history fromV toV = Inr []
           \<and> fst (executeMigrations toV history reg (Some fromV) s) =
               \<lparr> run_success = True,
                 run_message = (if fromV = [] then ''No migration needed''
                                else ''No migrations required from '' @ fromV @ '' to '' @ toV),
                 run_affectedKeys = None, run_error = NoError, run_results = None \<rparr>)
       \<and> (\<forall>e. sort_versions history = Inl e \<longrightarrow>
             getMigrationPath history fromV toV = Inl e
           \<and> fst (executeMigrations toV history reg (Some fromV) s) =
               (if fromV = [] then
                  \<lparr> run_success = True, run_message = ''No migration needed'',
                    run_affectedKeys = None, run_error = NoError, run_results = None \<rparr>
                else
                  \<lparr> run_success = False,
                    run_message = ''Migration failed: '' @ error_message e,
                    run_affectedKeys = None, run_error = CaughtError e,
                    run_results = None \<rparr>))"
proof (cases "sort_versions history")
  case (Inl e)
  have p: "getMigrationPath history fromV toV = Inl e"
    using distinct Inl by (simp add: getMigrationPath_def)
  obtain v where v: "v \<in> set (map version history)" "\<not> valid_version v"
      "e = InvalidVersionFormat v"
    using sort_versions_error [OF Inl] by blast
  have e: "executeMigrations toV history reg (Some fromV) s =
             ((if fromV = [] then
                  \<lparr> run_success = True, run_message = ''No migration needed'',
                    run_affectedKeys = None, run_error = NoError, run_results = None \<rparr>
                else
                  \<lparr> run_success = False,
                    run_message = ''Migration failed: '' @ error_message e,
                    run_affectedKeys = None, run_error = CaughtError e,
                    run_results = None \<rparr>), s, [])"
    using distinct by (simp add: executeMigrations_def p)
  show ?thesis
    unfolding e using p v Inl by auto
next
  case (Inr vs)
  have set_vs: "set vs = set history" using Inr by (rule sort_versions_set)
  have "findIndex (\<lambda>r. version r = fromV) vs = None \<or> findIndex (\<lambda>r. version r = toV) vs = None"
    using absent set_vs by (auto simp: findIndex_None)
  then have p: "getMigrationPath history fromV toV = Inr []"
    using distinct Inr by (auto simp: getMigrationPath_def split: option.splits)
  have e: "executeMigrations toV history reg (Some fromV) s =
             (\<lparr> run_success = True,
                 run_message = (if fromV = [] then ''No migration needed''
                                else ''No migrations required from '' @ fromV @ '' to '' @ toV),
                 run_affectedKeys = None, run_error = NoError, run_results = None \<rparr>, s, [])"
    using distinct by (simp add: executeMigrations_def p)
  show ?thesis
    unfolding e using p Inr by simp
qed

theorem unknown_version_counterexample:
  "''0.9.0'' \<noteq> APP_VERSION
   \<and> ''0.9.0'' \<notin> set (map version VERSION_HISTORY)
   \<and> getMigrationPath VERSION_HISTORY ''0.9.0'' APP_VERSION = Inr []
   \<and> run_success (fst (executeMigrations APP_VERSION VERSION_HISTORY migrations (Some ''0.9.0'') []))"
proof -
  have p: "getMigrationPath VERSION_HISTORY ''0.9.0'' APP_VERSION = Inr []"
    by (simp add: path_eval VERSION_HISTORY_def APP_VERSION_def)
  have a: "''0.9.0'' \<notin> set (map version VERSION_HISTORY)"
    by (simp add: VERSION_HISTORY_def)
  have d: "''0.9.0'' \<noteq> APP_VERSION"
    by (simp add: APP_VERSION_def)
  have "run_success (fst (executeMigrations APP_VERSION VERSION_HISTORY migrations (Some ''0.9.0'') []))"
    using d by (simp add: executeMigrations_def p)
  with p a d show ?thesis by simp
qed

theorem unknown_version_no_migration_witness:
  "getMigrationPath [release ''1.0.0'' False, release ''1.1.0'' True] ''0.9.0'' ''1.1.0'' = Inr []
   \<and> executeMigrations ''1.1.0'' [release ''1.0.0'' False, release ''1.1.0'' True]
        [''1.1.0'' \<mapsto> marking_step ''first''] (Some ''0.9.0'') [(''companies'', ''[]'')]
      = (\<lparr> run_success = True,
           run_message = ''No migrations required from 0.9.0 to 1.1.0'',
           run_affectedKeys = None, run_error = NoError, run_results = None \<rparr>,
         [(''companies'', ''[]'')], [])"
proof -
  let ?h = "[release ''1.0.0'' False, release ''1.1.0'' True]"
  let ?e = "executeMigrations ''1.1.0'' ?h [''1.1.0'' \<mapsto> marking_step ''first'']
              (Some ''0.9.0'') [(''companies'', ''[]'')]"
  have d: "''0.9.0'' \<noteq> ''1.1.0''" by simp
  have a: "''0.9.0'' \<notin> set (map version ?h) \<or> ''1.1.0'' \<notin> set (map version ?h)"
    by (simp add: release_def)
  have s: "sort_versions ?h = Inr ?h" by (simp add: path_eval)
  note t = unknown_version_no_migration [OF d a, of "[''1.1.0'' \<mapsto> marking_step ''first'']"
             "[(''companies'', ''[]'')]"]
  have p: "getMigrationPath ?h ''0.9.0'' ''1.1.0'' = Inr []"
    and f: "fst ?e = \<lparr> run_success = True,
           run_message = ''No migrations required from 0.9.0 to 1.1.0'',
           run_affectedKeys = None, run_error = NoError, run_results = None \<rparr>"
    using t s by simp_all
  have r: "snd ?e = ([(''companies'', ''[]'')], [])"
    using t by blast
  show ?thesis
    using p f r by (metis prod.collapse)
qed

section \<open>The executor\<close>

lemma read_prop_Some_get:
  "read_prop x k = Some v \<Longrightarrow> get_prop x k' = Inr (read_prop x k')"
  by (cases x) (simp_all add: read_prop_def)

text \<open>
  C1. Let the resolved path have three entries, each with a registered procedure. If the
  first procedure returns a result with \<^verbatim>\<open>success\<close> true and the second, run on the store
  the first left, returns a result with \<^verbatim>\<open>success\<close> false, then \<^verbatim>\<open>executeMigrations\<close>
  returns \<^verbatim>\<open>success\<close> false with exactly two \<^verbatim>\<open>results\<close>, for the first and the second
  entry in that order; the procedures invoked are those two and no other, and the
  store is the one the second procedure left.
\<close>

theorem executeMigrations_stops_on_first_failure:
  assumes path: "getMigrationPath history stored app = Inr [r1, r2, r3]"
    and stored: "stored \<noteq> []"
    and reg1: "reg (version r1) = Some p1"
    and reg2: "reg (version r2) = Some p2"
    and reg3: "reg (version r3) = Some p3"
    and run1: "p1 stored (version r1) s = (Inr res1, s1)"
    and ok1: "read_prop res1 ''success'' = Some (JBool True)"
    and run2: "p2 stored (version r2) s1 = (Inr res2, s2)"
    and ko2: "read_prop res2 ''success'' = Some (JBool False)"
  shows "\<exists>run e1 e2.
           executeMigrations app history reg (Some stored) s = (run, s2, [version r1, version r2])
         \<and> run_success run = False
         \<and> run_results run = Some [e1, e2]
         \<and> step_version e1 = version r1 \<and> step_success e1 = Some (JBool True)
         \<and> step_details e1 = res1
         \<and> step_version e2 = version r2 \<and> step_success e2 = Some (JBool False)
         \<and> step_details e2 = res2"
proof -
  have ne: "stored \<noteq> app"
    using path by (auto simp: getMigrationPath_def)
  have g1: "get_prop res1 ''affectedKeys'' = Inr (read_prop res1 ''affectedKeys'')"
    using ok1 by (rule read_prop_Some_get)
  have g2: "get_prop res2 ''affectedKeys'' = Inr (read_prop res2 ''affectedKeys'')"
    using ko2 by (rule read_prop_Some_get)
  show ?thesis
    using stored ne
    by (simp add: executeMigrations_def path reg1 reg2 run1 run2 g1 g2 ok1 ko2 Let_def)
qed


theorem executeMigrations_stops_on_first_failure_witness:
  "snd (executeMigrations ''1.3.0''
          [release ''1.0.0'' False, release ''1.1.0'' True, release ''1.2.0'' True,
           release ''1.3.0'' True]
          [''1.1.0'' \<mapsto> marking_step ''first'', ''1.2.0'' \<mapsto> failing_step,
           ''1.3.0'' \<mapsto> marking_step ''third'']
          (Some ''1.0.0'') [(''app_version'', ''1.0.0'')])
     = ([(''app_version'', ''1.0.0''), (''first'', ''1.1.0'')], [''1.1.0'', ''1.2.0''])
   \<and> \<not> run_success (fst (executeMigrations ''1.3.0''
          [release ''1.0.0'' False, release ''1.1.0'' True, release ''1.2.0'' True,
           release ''1.3.0'' True]
          [''1.1.0'' \<mapsto> marking_step ''first'', ''1.2.0'' \<mapsto> failing_step,
           ''1.3.0'' \<mapsto> marking_step ''third'']
          (Some ''1.0.0'') [(''app_version'', ''1.0.0'')]))
   \<and> map_option (map step_version) (run_results (fst (executeMigrations ''1.3.0''
          [release ''1.0.0'' False, release ''1.1.0'' True, release ''1.2.0'' True,
           release ''1.3.0'' True]
          [''1.1.0'' \<mapsto> marking_step ''first'', ''1.2.0'' \<mapsto> failing_step,
           ''1.3.0'' \<mapsto> marking_step ''third'']
          (Some ''1.0.0'') [(''app_version'', ''1.0.0'')])))
     = Some [''1.1.0'', ''1.2.0'']"
proof -
  let ?h = "[release ''1.0.0'' False, release ''1.1.0'' True, release ''1.2.0'' True,
             release ''1.3.0'' True]"
  let ?reg = "[''1.1.0'' \<mapsto> marking_step ''first'', ''1.2.0'' \<mapsto> failing_step,
               ''1.3.0'' \<mapsto> marking_step ''third'']"
  let ?s = "[(''app_version'', ''1.0.0'')]"
  have path: "getMigrationPath ?h ''1.0.0'' ''1.3.0''
                = Inr [release ''1.1.0'' True, release ''1.2.0'' True, release ''1.3.0'' True]"
    by (simp add: path_eval)
  have stored: "''1.0.0'' \<noteq> []" by simp
  have reg1: "?reg (version (release ''1.1.0'' True)) = Some (marking_step ''first'')"
    and reg2: "?reg (version (release ''1.2.0'' True)) = Some failing_step"
    and reg3: "?reg (version (release ''1.3.0'' True)) = Some (marking_step ''third'')"
    by (simp_all add: release_def)
  have run1: "marking_step ''first'' ''1.0.0'' (version (release ''1.1.0'' True)) ?s
                = (Inr (JObj [(''success'', JBool True)]),
                   [(''app_version'', ''1.0.0''), (''first'', ''1.1.0'')])"
    by (simp add: marking_step_def release_def setItem_def)
  have ok1: "read_prop (JObj [(''success'', JBool True)]) ''success'' = Some (JBool True)"
    by (simp add: read_prop_def)
  have run2: "failing_step ''1.0.0'' (version (release ''1.2.0'' True))
                [(''app_version'', ''1.0.0''), (''first'', ''1.1.0'')]
                = (Inr (JObj [(''success'', JBool False)]),
                   [(''app_version'', ''1.0.0''), (''first'', ''1.1.0'')])"
    by (simp add: failing_step_def)
  have ko2: "read_prop (JObj [(''success'', JBool False)]) ''success'' = Some (JBool False)"
    by (simp add: read_prop_def)
  from executeMigrations_stops_on_first_failure
         [OF path stored reg1 reg2 reg3 run1 ok1 run2 ko2]
  obtain run e1 e2 where
    e: "executeMigrations ''1.3.0'' ?h ?reg (Some ''1.0.0'') ?s
          = (run, [(''app_version'', ''1.0.0''), (''first'', ''1.1.0'')],
             [version (release ''1.1.0'' True), version (release ''1.2.0'' True)])"
    and r: "run_success run = False" "run_results run = Some [e1, e2]"
      "step_version e1 = version (release ''1.1.0'' True)"
      "step_version e2 = version (release ''1.2.0'' True)"
    by blast
  show ?thesis
    unfolding e using r by (simp add: release_def)
qed

section \<open>The version tracker\<close>

lemma valid_version_nonempty: "valid_version v \<Longrightarrow> v \<noteq> []"
  by (auto simp: valid_version_def parseVersion_def match_digits_def)

lemma compareVersions_Inr:
  "compareVersions v app = Inr c \<Longrightarrow>
     valid_version v \<and> valid_version app \<and> (c = -1 \<or> c = 0 \<or> c = 1)"
  by (auto simp: compareVersions_def valid_version_def compare_parsed_key
           split: sum.splits if_splits)

lemma checkVersionStatus_first_run:
  "getStoredVersion s = None \<or> getStoredVersion s = Some [] \<Longrightarrow>
     checkVersionStatus app s =
       Inr \<lparr> firstRun = True, updated = False, fromVersion = None, toVersion = app,
             isNewer = None, isOlder = None \<rparr>"
  by (auto simp: checkVersionStatus_def)

lemma checkVersionStatus_stored:
  "getStoredVersion s = Some v \<Longrightarrow> v \<noteq> [] \<Longrightarrow>
     checkVersionStatus app s =
       (case compareVersions v app of
          Inl e \<Rightarrow> Inl e
        | Inr c \<Rightarrow>
            Inr \<lparr> firstRun = False, updated = (c \<noteq> 0), fromVersion = Some v, toVersion = app,
                  isNewer = Some (c < 0), isOlder = Some (c > 0) \<rparr>)"
  by (simp add: checkVersionStatus_def)




lemma initializeVersioning_newer:
  assumes marker: "getStoredVersion s = Some v"
    and newer: "compareVersions v app = Inr (-1)"
    and run: "executeMigrations app history reg (Some v) s = (run, s', calls)"
  shows "initializeVersioning app history reg s =
          (Inr \<lparr> status = \<lparr> firstRun = False, updated = True, fromVersion = Some v,
                             toVersion = app, isNewer = Some True, isOlder = Some False \<rparr>,
                  migrationNeeded = True, migrationResult = run \<rparr>,
           if run_success run then saveCurrentVersion app s' else s', calls)"
proof -
  have ne: "v \<noteq> []"
    using newer compareVersions_Inr valid_version_nonempty by blast
  have st: "checkVersionStatus app s =
              Inr \<lparr> firstRun = False, updated = True, fromVersion = Some v, toVersion = app,
                    isNewer = Some True, isOlder = Some False \<rparr>"
    using marker ne newer by (simp add: checkVersionStatus_stored)
  show ?thesis
    using ne newer run
    by (simp add: initializeVersioning_def st checkMigrationNeeded_def)
qed




lemma compareVersions_cases:
  "(\<exists>e. compareVersions v app = Inl e) \<or> compareVersions v app = Inr (-1)
   \<or> compareVersions v app = Inr 0 \<or> compareVersions v app = Inr 1"
  using compareVersions_Inr [of v app] by (cases "compareVersions v app") auto

text \<open>
  C3, as the code has it. \<^verbatim>\<open>initializeVersioning\<close> itself writes the marker, setting it
  to the compiled-in version, in exactly three cases: on a first run (no marker, or an
  empty one), with no migration attempted; after a migration run that reports success;
  and when the compiled-in version is older than the stored one, again with no
  migration attempted. When the two versions compare equal, when the migration run
  reports failure, and when the comparison throws, it writes nothing: the store is as
  it was, or as the migration run left it. One of these cases always applies.
\<close>

theorem initializeVersioning_marker_writes:
  "(getStoredVersion s = None \<or> getStoredVersion s = Some [] \<longrightarrow>
      snd (initializeVersioning app history reg s) = (saveCurrentVersion app s, []))
   \<and> (getStoredVersion s = Some v \<and> compareVersions v app = Inr 0 \<longrightarrow>
      snd (initializeVersioning app history reg s) = (s, []))
   \<and> (getStoredVersion s = Some v \<and> compareVersions v app = Inr (-1)
        \<and> executeMigrations app history reg (Some v) s = (run, s', calls) \<longrightarrow>
      snd (initializeVersioning app history reg s) =
        (if run_success run then saveCurrentVersion app s' else s', calls))
   \<and> (getStoredVersion s = Some v \<and> compareVersions v app = Inr 1 \<longrightarrow>
      snd (initializeVersioning app history reg s) = (saveCurrentVersion app s, []))
   \<and> (getStoredVersion s = Some v \<and> v \<noteq> [] \<and> compareVersions v app = Inl e \<longrightarrow>
      initializeVersioning app history reg s = (Inl e, s, []))
   \<and> ((\<exists>e. compareVersions v app = Inl e) \<or> compareVersions v app = Inr (-1)
        \<or> compareVersions v app = Inr 0 \<or> compareVersions v app = Inr 1)
   \<and> getStoredVersion (saveCurrentVersion app s') = Some app"
proof -
  have first: "snd (initializeVersioning app history reg s) = (saveCurrentVersion app s, [])"
    if "getStoredVersion s = None \<or> getStoredVersion s = Some []"
    using checkVersionStatus_first_run [OF that, of app]
    by (simp add: initializeVersioning_def)
  have ne: "v \<noteq> []" if "compareVersions v app = Inr c" for c
    using that compareVersions_Inr valid_version_nonempty by blast
  have equal: "snd (initializeVersioning app history reg s) = (s, [])"
    if "getStoredVersion s = Some v" "compareVersions v app = Inr 0"
    using that ne [OF that(2)]
    by (simp add: initializeVersioning_def checkVersionStatus_stored)
  have newer: "snd (initializeVersioning app history reg s) =
        (if run_success run then saveCurrentVersion app s' else s', calls)"
    if "getStoredVersion s = Some v" "compareVersions v app = Inr (-1)"
      "executeMigrations app history reg (Some v) s = (run, s', calls)"
    using initializeVersioning_newer [OF that] by simp
  have older: "snd (initializeVersioning app history reg s) = (saveCurrentVersion app s, [])"
    if "getStoredVersion s = Some v" "compareVersions v app = Inr 1"
    using that ne [OF that(2)]
    by (simp add: initializeVersioning_def checkVersionStatus_stored)
  have throws: "initializeVersioning app history reg s = (Inl e, s, [])"
    if "getStoredVersion s = Some v" "v \<noteq> []" "compareVersions v app = Inl e"
    using that by (simp add: initializeVersioning_def checkVersionStatus_stored)
  have saved: "getStoredVersion (saveCurrentVersion app s') = Some app"
    by (simp add: getStoredVersion_def saveCurrentVersion_def setItem_def getItem_def
          update_conv')
  show ?thesis
    apply (intro conjI impI)
    subgoal by (rule first)
    subgoal by (elim conjE, rule equal)
    subgoal by (elim conjE, rule newer)
    subgoal by (elim conjE, rule older)
    subgoal by (elim conjE, rule throws)
    subgoal by (rule compareVersions_cases)
    subgoal by (rule saved)
    done
qed

theorem downgrade_write_counterexample:
  "compareVersions ''1.0.0'' APP_VERSION = Inr 1
   \<and> getStoredVersion [(''app_version'', ''1.0.0'')] = Some ''1.0.0''
   \<and> snd (initializeVersioning APP_VERSION VERSION_HISTORY migrations
             [(''app_version'', ''1.0.0'')])
       = ([(''app_version'', ''1.0.0-alpha'')], [])"
proof -
  have c: "compareVersions ''1.0.0'' APP_VERSION = Inr 1"
    by (simp add: version_eval APP_VERSION_def)
  have m: "getStoredVersion [(''app_version'', ''1.0.0'')] = Some ''1.0.0''"
    by (simp add: getStoredVersion_def getItem_def VERSION_STORAGE_KEY_def)
  have "snd (initializeVersioning APP_VERSION VERSION_HISTORY migrations
               [(''app_version'', ''1.0.0'')])
          = (saveCurrentVersion APP_VERSION [(''app_version'', ''1.0.0'')], [])"
    using m c by (simp add: initializeVersioning_def checkVersionStatus_stored)
  then show ?thesis
    using c m
    by (simp add: saveCurrentVersion_def setItem_def VERSION_STORAGE_KEY_def APP_VERSION_def)
qed

theorem initializeVersioning_marker_writes_witness:
  "snd (initializeVersioning ''1.1.0'' [release ''1.0.0'' False, release ''1.1.0'' True]
          [''1.1.0'' \<mapsto> marking_step ''first''] [(''app_version'', ''1.0.0'')])
     = ([(''app_version'', ''1.1.0''), (''first'', ''1.1.0'')], [''1.1.0''])
   \<and> snd (initializeVersioning ''1.1.0'' [release ''1.0.0'' False, release ''1.1.0'' True]
          [''1.1.0'' \<mapsto> failing_step] [(''app_version'', ''1.0.0'')])
     = ([(''app_version'', ''1.0.0'')], [''1.1.0''])
   \<and> snd (initializeVersioning ''1.1.0'' [] Map.empty []) = ([(''app_version'', ''1.1.0'')], [])
   \<and> snd (initializeVersioning ''1.1.0'' [] Map.empty [(''app_version'', ''1.1.0'')])
     = ([(''app_version'', ''1.1.0'')], [])
   \<and> snd (initializeVersioning ''1.1.0'' [] Map.empty [(''app_version'', ''2.0.0'')])
     = ([(''app_version'', ''1.1.0'')], [])
   \<and> initializeVersioning ''1.1.0'' [] Map.empty [(''app_version'', ''one'')]
     = (Inl (InvalidVersionFormat ''one''), [(''app_version'', ''one'')], [])"
proof -
  let ?h = "[release ''1.0.0'' False, release ''1.1.0'' True]"
  let ?s = "[(''app_version'', ''1.0.0'')]"
  have m: "getStoredVersion ?s = Some ''1.0.0''"
    by (simp add: getStoredVersion_def getItem_def VERSION_STORAGE_KEY_def)
  have c: "compareVersions ''1.0.0'' ''1.1.0'' = Inr (-1)"
    by (simp add: version_eval)
  have p: "getMigrationPath ?h ''1.0.0'' ''1.1.0'' = Inr [release ''1.1.0'' True]"
    by (simp add: path_eval)
  have "\<exists>run. executeMigrations ''1.1.0'' ?h [''1.1.0'' \<mapsto> marking_step ''first'']
                 (Some ''1.0.0'') ?s
               = (run, [(''app_version'', ''1.0.0''), (''first'', ''1.1.0'')], [''1.1.0''])
               \<and> run_success run"
    apply (simp add: executeMigrations_def p)
    apply (simp add: release_def marking_step_def read_prop_def Let_def setItem_def)
    done
  then obtain run1 where e1: "executeMigrations ''1.1.0'' ?h [''1.1.0'' \<mapsto> marking_step ''first'']
                 (Some ''1.0.0'') ?s
               = (run1, [(''app_version'', ''1.0.0''), (''first'', ''1.1.0'')], [''1.1.0''])"
    and ok1: "run_success run1"
    by blast
  have "\<exists>run. executeMigrations ''1.1.0'' ?h [''1.1.0'' \<mapsto> failing_step] (Some ''1.0.0'') ?s
               = (run, ?s, [''1.1.0'']) \<and> \<not> run_success run"
    apply (simp add: executeMigrations_def p)
    apply (simp add: release_def failing_step_def read_prop_def Let_def)
    done
  then obtain run2 where e2: "executeMigrations ''1.1.0'' ?h [''1.1.0'' \<mapsto> failing_step]
                 (Some ''1.0.0'') ?s = (run2, ?s, [''1.1.0''])"
    and ko2: "\<not> run_success run2"
    by blast
  have w1: "snd (initializeVersioning ''1.1.0'' ?h [''1.1.0'' \<mapsto> marking_step ''first''] ?s)
              = ([(''app_version'', ''1.1.0''), (''first'', ''1.1.0'')], [''1.1.0''])"
    using initializeVersioning_marker_writes
            [where s = ?s and app = "''1.1.0''" and history = ?h
                and reg = "[''1.1.0'' \<mapsto> marking_step ''first'']" and v = "''1.0.0''"
                and run = run1 and calls = "[''1.1.0'']"
                and s' = "[(''app_version'', ''1.0.0''), (''first'', ''1.1.0'')]"]
          m c e1 ok1
    by (simp add: saveCurrentVersion_def setItem_def VERSION_STORAGE_KEY_def)
  have w2: "snd (initializeVersioning ''1.1.0'' ?h [''1.1.0'' \<mapsto> failing_step] ?s)
              = (?s, [''1.1.0''])"
    using initializeVersioning_marker_writes
            [where s = ?s and app = "''1.1.0''" and history = ?h
                and reg = "[''1.1.0'' \<mapsto> failing_step]" and v = "''1.0.0''"
                and run = run2 and calls = "[''1.1.0'']" and s' = ?s]
          m c e2 ko2
    by simp
  have w3: "snd (initializeVersioning ''1.1.0'' [] Map.empty []) = ([(''app_version'', ''1.1.0'')], [])"
    using initializeVersioning_marker_writes [where s = "[]" and app = "''1.1.0''" and history = "[]" and reg = Map.empty]
    by (simp add: getStoredVersion_def getItem_def saveCurrentVersion_def setItem_def
          VERSION_STORAGE_KEY_def)
  have m4: "getStoredVersion [(''app_version'', ''1.1.0'')] = Some ''1.1.0''"
    and m5: "getStoredVersion [(''app_version'', ''2.0.0'')] = Some ''2.0.0''"
    and m6: "getStoredVersion [(''app_version'', ''one'')] = Some ''one''"
    by (simp_all add: getStoredVersion_def getItem_def VERSION_STORAGE_KEY_def)
  have c4: "compareVersions ''1.1.0'' ''1.1.0'' = Inr 0"
    and c5: "compareVersions ''2.0.0'' ''1.1.0'' = Inr 1"
    and c6: "compareVersions ''one'' ''1.1.0'' = Inl (InvalidVersionFormat ''one'')"
    by (simp_all add: version_eval)
  have w4: "snd (initializeVersioning ''1.1.0'' [] Map.empty [(''app_version'', ''1.1.0'')])
              = ([(''app_version'', ''1.1.0'')], [])"
    using initializeVersioning_marker_writes
            [where s = "[(''app_version'', ''1.1.0'')]" and app = "''1.1.0''" and history = "[]"
                and reg = Map.empty and v = "''1.1.0''"] m4 c4
    by simp
  have w5: "snd (initializeVersioning ''1.1.0'' [] Map.empty [(''app_version'', ''2.0.0'')])
              = ([(''app_version'', ''1.1.0'')], [])"
    using initializeVersioning_marker_writes
            [where s = "[(''app_version'', ''2.0.0'')]" and app = "''1.1.0''" and history = "[]"
                and reg = Map.empty and v = "''2.0.0''"] m5 c5
    by (simp add: saveCurrentVersion_def setItem_def VERSION_STORAGE_KEY_def)
  have w6: "initializeVersioning ''1.1.0'' [] Map.empty [(''app_version'', ''one'')]
              = (Inl (InvalidVersionFormat ''one''), [(''app_version'', ''one'')], [])"
    using initializeVersioning_marker_writes
            [where s = "[(''app_version'', ''one'')]" and app = "''1.1.0''" and history = "[]"
                and reg = Map.empty and v = "''one''" and e = "InvalidVersionFormat ''one''"] m6 c6
    by simp
  show ?thesis
    using w1 w2 w3 w4 w5 w6 by simp
qed

lemma initializeVersioning_returns:
  assumes "compareVersions v app = Inr c" "getStoredVersion s = Some v"
  shows "\<exists>r. fst (initializeVersioning app history reg s) = Inr r"
proof -
  have ne: "v \<noteq> []"
    using assms(1) compareVersions_Inr valid_version_nonempty by blast
  show ?thesis
    using assms ne
    by (simp add: initializeVersioning_def checkVersionStatus_stored checkMigrationNeeded_def
          Let_def split: prod.splits)
qed

text \<open>
  C6, as the code has it. \<^verbatim>\<open>initializeVersioning\<close> throws exactly when the marker is a
  non-empty string and comparing it with the compiled-in version throws, that is, when
  the marker or the compiled-in version is not a valid version string. What it throws
  is the \<^verbatim>\<open>Invalid version format\<close> error of the marker when the marker is not valid,
  and of the compiled-in version otherwise. When it throws, the store is unchanged and
  no migration procedure has been invoked. The compiled-in version of this release is
  valid.
\<close>

theorem initializeVersioning_throws_iff:
  "(fst (initializeVersioning app history reg s) = Inl e \<longleftrightarrow>
      (\<exists>v. getStoredVersion s = Some v \<and> v \<noteq> []
           \<and> (\<not> valid_version v \<and> e = InvalidVersionFormat v
                \<or> valid_version v \<and> \<not> valid_version app \<and> e = InvalidVersionFormat app)))
   \<and> (fst (initializeVersioning app history reg s) = Inl e \<longrightarrow>
        snd (initializeVersioning app history reg s) = (s, []))
   \<and> valid_version APP_VERSION"
proof -
  let ?init = "initializeVersioning app history reg s"
  have first: "\<exists>r. fst ?init = Inr r"
    if "getStoredVersion s = None \<or> getStoredVersion s = Some []"
    using checkVersionStatus_first_run [OF that, of app]
    by (simp add: initializeVersioning_def)
  have throws: "?init = (Inl e', s, [])"
    if "getStoredVersion s = Some v" "v \<noteq> []" "compareVersions v app = Inl e'" for v e'
    using that by (simp add: initializeVersioning_def checkVersionStatus_stored)
  have iff: "fst ?init = Inl e \<longleftrightarrow>
               (\<exists>v. getStoredVersion s = Some v \<and> v \<noteq> [] \<and> compareVersions v app = Inl e)"
  proof (cases "getStoredVersion s")
    case None
    then show ?thesis using first by auto
  next
    case (Some v)
    show ?thesis
    proof (cases "v = []")
      case True
      then show ?thesis using first Some by auto
    next
      case False
      show ?thesis
      proof (cases "compareVersions v app")
        case (Inl e')
        then show ?thesis using throws [OF Some False Inl] Some False by auto
      next
        case (Inr c)
        then show ?thesis
          using initializeVersioning_returns [OF Inr Some, of history reg] Some by auto
      qed
    qed
  qed
  have unchanged: "snd ?init = (s, [])" if "fst ?init = Inl e"
  proof -
    from that iff obtain v where "getStoredVersion s = Some v" "v \<noteq> []"
      "compareVersions v app = Inl e"
      by blast
    then show ?thesis using throws by simp
  qed
  have app: "valid_version APP_VERSION"
    by (simp add: version_eval APP_VERSION_def)
  show ?thesis
    apply (intro conjI impI)
    subgoal using iff by (simp add: compareVersions_error)
    subgoal by (rule unchanged)
    subgoal by (rule app)
    done
qed

theorem unparsable_marker_counterexample:
  "getStoredVersion [(''app_version'', ''not-a-version'')] = Some ''not-a-version''
   \<and> parseVersion ''not-a-version'' = Inl (InvalidVersionFormat ''not-a-version'')
   \<and> initializeVersioning APP_VERSION VERSION_HISTORY migrations
        [(''app_version'', ''not-a-version'')]
       = (Inl (InvalidVersionFormat ''not-a-version''), [(''app_version'', ''not-a-version'')], [])"
proof -
  have m: "getStoredVersion [(''app_version'', ''not-a-version'')] = Some ''not-a-version''"
    by (simp add: getStoredVersion_def getItem_def VERSION_STORAGE_KEY_def)
  have p: "parseVersion ''not-a-version'' = Inl (InvalidVersionFormat ''not-a-version'')"
    by (simp add: version_eval)
  then have c: "compareVersions ''not-a-version'' APP_VERSION
                  = Inl (InvalidVersionFormat ''not-a-version'')"
    by (simp add: compareVersions_def)
  show ?thesis
    using m p c by (simp add: initializeVersioning_def checkVersionStatus_stored)
qed

theorem initializeVersioning_throws_iff_witness:
  "initializeVersioning ''1.1.0'' [] Map.empty [(''app_version'', ''v1'')]
     = (Inl (InvalidVersionFormat ''v1''), [(''app_version'', ''v1'')], [])
   \<and> (\<exists>r. fst (initializeVersioning ''1.1.0'' [] Map.empty [(''app_version'', ''1.1.0'')]) = Inr r)"
proof -
  have m: "getStoredVersion [(''app_version'', ''v1'')] = Some ''v1''"
    and m2: "getStoredVersion [(''app_version'', ''1.1.0'')] = Some ''1.1.0''"
    by (simp_all add: getStoredVersion_def getItem_def VERSION_STORAGE_KEY_def)
  have v: "\<not> valid_version ''v1''" and v2: "valid_version ''1.1.0''"
    by (simp_all add: version_eval)
  note t = initializeVersioning_throws_iff
             [where app = "''1.1.0''" and history = "[]" and reg = Map.empty
                and s = "[(''app_version'', ''v1'')]" and e = "InvalidVersionFormat ''v1''"]
  have f: "fst (initializeVersioning ''1.1.0'' [] Map.empty [(''app_version'', ''v1'')])
             = Inl (InvalidVersionFormat ''v1'')"
    using t m v by simp
  then have s: "snd (initializeVersioning ''1.1.0'' [] Map.empty [(''app_version'', ''v1'')])
             = ([(''app_version'', ''v1'')], [])"
    using t by simp
  have a: "initializeVersioning ''1.1.0'' [] Map.empty [(''app_version'', ''v1'')]
     = (Inl (InvalidVersionFormat ''v1''), [(''app_version'', ''v1'')], [])"
    using f s by (simp add: prod_eq_iff)
  have n: "\<forall>e. fst (initializeVersioning ''1.1.0'' [] Map.empty [(''app_version'', ''1.1.0'')])
              \<noteq> Inl e"
    using initializeVersioning_throws_iff
             [where app = "''1.1.0''" and history = "[]" and reg = Map.empty
                and s = "[(''app_version'', ''1.1.0'')]"] m2 v2
    by simp
  have b: "\<exists>r. fst (initializeVersioning ''1.1.0'' [] Map.empty [(''app_version'', ''1.1.0'')]) = Inr r"
    using n by (cases "fst (initializeVersioning ''1.1.0'' [] Map.empty [(''app_version'', ''1.1.0'')])") auto
  show ?thesis using a b by simp
qed
end
